theory Spec2Isabelle
  imports Complex_Main "HOL-Library.List_Lexorder" "HOL-Library.Multiset"
begin

section \<open>Python strings, exceptions and scalar values\<close>

text \<open>
  A Python \<^verbatim>\<open>str\<close> is a sequence of Unicode code points, so a string is a list of
  natural numbers; the lexicographic order on lists is Python's order on \<^verbatim>\<open>str\<close>.
  ASCII literals of the source are written through \<open>ascii\<close>; the Cyrillic literals are
  given by their code points.
\<close>

type_synonym pystr = "nat list"

definition ascii :: "string \<Rightarrow> pystr" where
  "ascii s = map of_char s"

definition slash :: nat where
  "slash = 47"

definition qmark :: nat where
  "qmark = 63"

text \<open>
  The exceptions below are all subclasses of \<^verbatim>\<open>Exception\<close>; each carries the text that
  \<^verbatim>\<open>str(e)\<close> gives (for a \<^verbatim>\<open>KeyError\<close>, the \<^verbatim>\<open>repr\<close> of the key).
\<close>

datatype exn =
    ValueError pystr
  | TypeError pystr
  | AttributeError pystr
  | IndexError pystr
  | KeyError pystr
  | OtherException pystr

fun exn_str :: "exn \<Rightarrow> pystr" where
  "exn_str (ValueError m) = m"
| "exn_str (TypeError m) = m"
| "exn_str (AttributeError m) = m"
| "exn_str (IndexError m) = m"
| "exn_str (KeyError m) = m"
| "exn_str (OtherException m) = m"

text \<open>\<^verbatim>\<open>try: ... except Exception as e: handler(e)\<close> around a computation.\<close>

definition try_except :: "exn + 'a \<Rightarrow> (exn \<Rightarrow> exn + 'a) \<Rightarrow> exn + 'a" where
  "try_except body handler = (case body of Inl e \<Rightarrow> handler e | Inr v \<Rightarrow> Inr v)"

text \<open>Sequencing: the second statement runs when the first does not raise.\<close>

definition and_then :: "exn + 'a \<Rightarrow> ('a \<Rightarrow> exn + 'b) \<Rightarrow> exn + 'b" where
  "and_then r f = (case r of Inl e \<Rightarrow> Inl e | Inr v \<Rightarrow> f v)"

definition no_attribute :: "pystr \<Rightarrow> string \<Rightarrow> exn" where
  "no_attribute ty attr =
     AttributeError (ascii [CHR 0x27] @ ty @ ascii [CHR 0x27] @ ascii '' object has no attribute ''
                       @ ascii [CHR 0x27] @ ascii attr @ ascii [CHR 0x27])"

definition not_iterable :: "pystr \<Rightarrow> exn" where
  "not_iterable ty =
     TypeError (ascii [CHR 0x27] @ ty @ ascii [CHR 0x27] @ ascii '' object is not iterable'')"

text \<open>The values an attribute of a track holds: \<^verbatim>\<open>None\<close>, an \<^verbatim>\<open>int\<close> or a \<^verbatim>\<open>str\<close>.\<close>

datatype pyscalar = PNone | PInt int | PStr pystr

fun truthy :: "pyscalar \<Rightarrow> bool" where
  "truthy PNone = False"
| "truthy (PInt n) = (n \<noteq> 0)"
| "truthy (PStr s) = (s \<noteq> [])"

fun digits :: "nat \<Rightarrow> pystr" where
  "digits n = (if n < 10 then [48 + n] else digits (n div 10) @ [48 + n mod 10])"

declare digits.simps [simp del]

definition str_int :: "int \<Rightarrow> pystr" where
  "str_int n = (if n < 0 then ascii ''-'' @ digits (nat (- n)) else digits (nat n))"

fun py_str :: "pyscalar \<Rightarrow> pystr" where
  "py_str PNone = ascii ''None''"
| "py_str (PInt n) = str_int n"
| "py_str (PStr s) = s"

fun type_name :: "pyscalar \<Rightarrow> pystr" where
  "type_name PNone = ascii ''NoneType''"
| "type_name (PInt n) = ascii ''int''"
| "type_name (PStr s) = ascii ''str''"

text \<open>An attribute or variable that holds either \<^verbatim>\<open>None\<close> or a value of one shape.\<close>

datatype 'a nullable = Null | Val 'a

section \<open>app.py: the reference parser\<close>

text \<open>
  \<^verbatim>\<open>re.search\<close> tries the pattern at every start position from the left and returns the
  first match. \<open>uuid_match_at\<close> is the pattern
  \<^verbatim>\<open>music\.yandex\.ru/playlists/([^/?]+)\<close> anchored at the start of its argument: the
  literal, then the longest non-empty run without \<^verbatim>\<open>/\<close> and \<^verbatim>\<open>?\<close>. \<open>user_match_at\<close> is
  \<^verbatim>\<open>music\.yandex\.ru/users/([^/]+)/playlists/(\d+)\<close>: the first group is greedy and must
  be followed by \<^verbatim>\<open>/\<close>, so it is the whole run up to the first \<^verbatim>\<open>/\<close>; no shorter choice
  can be followed by the literal. The class \<^verbatim>\<open>\d\<close> (the decimal digits of Unicode) is a
  table of the regular-expression engine and is a parameter.
\<close>

definition MSG_BAD_FORMAT :: pystr where
  "MSG_BAD_FORMAT = [1053, 1077, 1074, 1077, 1088, 1085, 1099, 1081, 32, 1092, 1086, 1088,
     1084, 1072, 1090, 32, 1089, 1089, 1099, 1083, 1082, 1080, 32, 1085, 1072, 32, 1087, 1083,
     1077, 1081, 1083, 1080, 1089, 1090]"

definition UUID_PREFIX :: pystr where
  "UUID_PREFIX = ascii ''music.yandex.ru/playlists/''"

definition USER_PREFIX :: pystr where
  "USER_PREFIX = ascii ''music.yandex.ru/users/''"

definition PLAYLISTS_PART :: pystr where
  "PLAYLISTS_PART = ascii ''/playlists/''"

fun strip_prefix :: "'a list \<Rightarrow> 'a list \<Rightarrow> 'a list option" where
  "strip_prefix [] s = Some s"
| "strip_prefix (p # ps) [] = None"
| "strip_prefix (p # ps) (c # cs) = (if p = c then strip_prefix ps cs else None)"

definition uuid_match_at :: "pystr \<Rightarrow> pystr option" where
  "uuid_match_at s =
     (case strip_prefix UUID_PREFIX s of
        None \<Rightarrow> None
      | Some r \<Rightarrow>
          (let tok = takeWhile (\<lambda>c. c \<noteq> slash \<and> c \<noteq> qmark) r
           in if tok = [] then None else Some tok))"

definition user_match_at :: "(nat \<Rightarrow> bool) \<Rightarrow> pystr \<Rightarrow> (pystr \<times> pystr) option" where
  "user_match_at isdigit s =
     (case strip_prefix USER_PREFIX s of
        None \<Rightarrow> None
      | Some r \<Rightarrow>
          (let owner = takeWhile (\<lambda>c. c \<noteq> slash) r
           in if owner = [] then None
              else (case strip_prefix PLAYLISTS_PART (dropWhile (\<lambda>c. c \<noteq> slash) r) of
                      None \<Rightarrow> None
                    | Some r2 \<Rightarrow>
                        (let ds = takeWhile isdigit r2
                         in if ds = [] then None else Some (owner, ds)))))"

fun re_search :: "(pystr \<Rightarrow> 'g option) \<Rightarrow> pystr \<Rightarrow> 'g option" where
  "re_search m [] = m []"
| "re_search m (c # cs) = (case m (c # cs) of Some g \<Rightarrow> Some g | None \<Rightarrow> re_search m cs)"

text \<open>
  The dictionaries \<^verbatim>\<open>{'type': 'uuid', 'uuid': ...}\<close> and
  \<^verbatim>\<open>{'type': 'user_kind', 'user': ..., 'kind': ...}\<close>.
\<close>

datatype playlist_info = Uuid pystr | UserKind pystr pystr

text \<open>
  \<^verbatim>\<open>lru_cache\<close> stores returned values only and the body is a function of the string, so
  the memoised function and its body return the same value on every call.
\<close>

definition parse_playlist_url_cached :: "(nat \<Rightarrow> bool) \<Rightarrow> pystr \<Rightarrow> exn + playlist_info" where
  "parse_playlist_url_cached isdigit url =
     (case re_search uuid_match_at url of
        Some tok \<Rightarrow> Inr (Uuid tok)
      | None \<Rightarrow>
          (case re_search (user_match_at isdigit) url of
             Some (owner, ds) \<Rightarrow> Inr (UserKind owner ds)
           | None \<Rightarrow> Inl (ValueError MSG_BAD_FORMAT)))"

section \<open>yandex\_service.py: the retry decorator\<close>

text \<open>
  The base delay is a Python number, an \<^verbatim>\<open>int\<close> or a \<^verbatim>\<open>float\<close>; \<open>'d\<close> is the type of the
  numbers at hand. Two operations of the runtime on them are parameters: \<open>mul c d k\<close> is
  the product \<^verbatim>\<open>d * k\<close> of a number and an \<^verbatim>\<open>int\<close> as the runtime computes it (rounded,
  for a \<^verbatim>\<open>float\<close>), and \<open>time_sleep c t\<close> is the outcome of \<^verbatim>\<open>time.sleep(t)\<close>: \<open>None\<close> when the
  sleep completes, the exception when it raises (\<^verbatim>\<open>time.sleep\<close> rejects a negative
  length, a length that is not a number and a length that is too large).
\<close>

record 'd clock =
  mul :: "'d \<Rightarrow> nat \<Rightarrow> 'd"
  time_sleep :: "'d \<Rightarrow> exn option"

text \<open>
  The effects of the wrapper, in order: \<open>Call k\<close> is the invocation of the wrapped
  callable on attempt \<open>k\<close> (counted from 0, as \<^verbatim>\<open>range\<close> does), \<open>Sleep t\<close> a completed
  \<^verbatim>\<open>time.sleep(t)\<close>. The callable is given by the outcome of each of its invocations,
  which may differ from one invocation to the next (a remote call).
\<close>

datatype 'd event = Call nat | Sleep 'd

text \<open>
  The \<^verbatim>\<open>for attempt in range(max_retries)\<close> loop of \<^verbatim>\<open>wrapper\<close> over the attempts that
  remain. An exception of \<^verbatim>\<open>time.sleep\<close> is raised inside the handler and leaves the
  wrapper. When the range is exhausted the wrapper returns \<^verbatim>\<open>None\<close>: \<open>Inr None\<close>.
\<close>

fun retry_loop ::
  "'d clock \<Rightarrow> int \<Rightarrow> 'd \<Rightarrow> (nat \<Rightarrow> exn + 'a) \<Rightarrow> nat list
     \<Rightarrow> (exn + 'a option) \<times> 'd event list" where
  "retry_loop c max_retries delay func [] = (Inr None, [])"
| "retry_loop c max_retries delay func (attempt # rest) =
     (case func attempt of
        Inr v \<Rightarrow> (Inr (Some v), [Call attempt])
      | Inl e \<Rightarrow>
          if int attempt = max_retries - 1 then (Inl e, [Call attempt])
          else (let secs = mul c delay (attempt + 1)
                in case time_sleep c secs of
                     Some e' \<Rightarrow> (Inl e', [Call attempt])
                   | None \<Rightarrow>
                       (case retry_loop c max_retries delay func rest of
                          (r, evs) \<Rightarrow> (r, Call attempt # Sleep secs # evs))))"

definition retry_on_error ::
  "'d clock \<Rightarrow> int \<Rightarrow> 'd \<Rightarrow> (nat \<Rightarrow> exn + 'a) \<Rightarrow> (exn + 'a option) \<times> 'd event list" where
  "retry_on_error c max_retries delay func =
     retry_loop c max_retries delay func [0 ..< nat max_retries]"

section \<open>yandex\_service.py: track entries\<close>

text \<open>
  A raw entry is an object of the client library, read by \<^verbatim>\<open>hasattr\<close>/\<^verbatim>\<open>getattr\<close>. A field
  is \<open>None\<close> when the object has no such attribute and \<open>Some v\<close> when the attribute holds
  \<open>v\<close>; an attribute that holds a list or an object may also hold \<^verbatim>\<open>None\<close> (\<open>Null\<close>).
  The attribute \<^verbatim>\<open>id\<close> is named \<open>id_attr\<close> on a track and \<open>album_id_attr\<close> on an album.
  \<open>nested\<close> is the object under \<^verbatim>\<open>entry.track\<close>, of which three attributes are read;
  \<open>fields\<close> are the attributes read for display; an \<open>entry\<close> adds the two identifier
  attributes and \<^verbatim>\<open>fetch_track\<close>, given by the outcome of calling it: it raises, or it
  returns the full track.
\<close>

record artist =
  name :: "pyscalar option"

record album =
  album_id_attr :: "pyscalar option"

record nested =
  nested_title :: "pyscalar option"
  nested_artists :: "artist list nullable option"
  nested_albums :: "album list nullable option"

record fields =
  title :: "pyscalar option"
  track :: "nested nullable option"
  artists :: "artist list nullable option"
  artists_name :: "pyscalar list nullable option"
  albums :: "album list nullable option"
  album_id :: "pyscalar option"

record entry = fields +
  id_attr :: "pyscalar option"
  track_id :: "pyscalar option"
  fetch_track :: "(exn + fields) option"

text \<open>
  \<^verbatim>\<open>hasattr(o, a) and o.a\<close> for the three kinds of attribute value: the value of the
  attribute when the object has it and it is truthy.
\<close>

fun truthy_attr :: "pyscalar option \<Rightarrow> pyscalar option" where
  "truthy_attr None = None"
| "truthy_attr (Some v) = (if truthy v then Some v else None)"

fun truthy_list :: "'a list nullable option \<Rightarrow> 'a list option" where
  "truthy_list (Some (Val xs)) = (if xs \<noteq> [] then Some xs else None)"
| "truthy_list _ = None"

fun truthy_obj :: "'a nullable option \<Rightarrow> 'a option" where
  "truthy_obj (Some (Val x)) = Some x"
| "truthy_obj _ = None"

text \<open>
  \<^verbatim>\<open>get_track_id\<close>; nothing in its \<^verbatim>\<open>try\<close> raises on these entries, so its handler is
  not modelled.
\<close>

definition get_track_id :: "entry \<Rightarrow> pystr option" where
  "get_track_id t =
     (case truthy_attr (id_attr t) of
        Some v \<Rightarrow> Some (py_str v)
      | None \<Rightarrow>
          (case truthy_attr (track_id t) of
             Some v \<Rightarrow> Some (py_str v)
           | None \<Rightarrow> None))"

definition UNKNOWN_TRACK :: pystr where
  "UNKNOWN_TRACK = [1053, 1077, 1080, 1079, 1074, 1077, 1089, 1090, 1085, 1099, 1081, 32,
     1090, 1088, 1077, 1082]"

definition UNKNOWN_ARTIST :: pystr where
  "UNKNOWN_ARTIST = [1053, 1077, 1080, 1079, 1074, 1077, 1089, 1090, 1085, 1099, 1081, 32,
     1080, 1089, 1087, 1086, 1083, 1085, 1080, 1090, 1077, 1083, 1100]"

text \<open>\<^verbatim>\<open>for x in v\<close> over an attribute that holds a list or \<^verbatim>\<open>None\<close>.\<close>

fun iterate :: "'a list nullable \<Rightarrow> exn + 'a list" where
  "iterate Null = Inl (not_iterable (ascii ''NoneType''))"
| "iterate (Val xs) = Inr xs"

text \<open>\<^verbatim>\<open>[artist.name for artist in xs if hasattr(artist, 'name')]\<close>\<close>

definition artist_names :: "artist list \<Rightarrow> pyscalar list" where
  "artist_names xs = concat (map (\<lambda>a. case name a of None \<Rightarrow> [] | Some v \<Rightarrow> [v]) xs)"

text \<open>
  \<^verbatim>\<open>', '.join(xs)\<close>: the items joined by the separator; \<^verbatim>\<open>TypeError\<close> at the first item
  that is not a \<^verbatim>\<open>str\<close>. \<open>join_from i\<close> joins a list whose first item has index \<open>i\<close>.
\<close>

fun join_from :: "nat \<Rightarrow> pyscalar list \<Rightarrow> exn + pystr" where
  "join_from i [] = Inr []"
| "join_from i (PStr s # rest) =
     (case join_from (Suc i) rest of
        Inl e \<Rightarrow> Inl e
      | Inr joined \<Rightarrow> Inr (if rest = [] then s else s @ ascii '', '' @ joined))"
| "join_from i (v # rest) =
     Inl (TypeError (ascii ''sequence item '' @ digits i @ ascii '': expected str instance, ''
                       @ type_name v @ ascii '' found''))"

definition join :: "pyscalar list \<Rightarrow> exn + pystr" where
  "join xs = join_from 0 xs"

text \<open>The dictionary that \<^verbatim>\<open>get_track_info\<close> returns.\<close>

record track_info =
  info_id :: pystr
  info_title :: pyscalar
  info_artists :: pystr
  info_url :: pystr

text \<open>The track read after the best-effort \<^verbatim>\<open>fetch_track\<close> step (the bare \<^verbatim>\<open>except\<close>).\<close>

definition fetched :: "entry \<Rightarrow> fields" where
  "fetched t =
     (case fetch_track t of
        None \<Rightarrow> fields.truncate t
      | Some (Inl e) \<Rightarrow> fields.truncate t
      | Some (Inr full) \<Rightarrow> full)"

definition resolve_title :: "fields \<Rightarrow> pyscalar" where
  "resolve_title t =
     (let title0 = (case title t of None \<Rightarrow> PStr UNKNOWN_TRACK | Some v \<Rightarrow> v)
      in if title0 = PStr UNKNOWN_TRACK
         then (case truthy_obj (track t) of
                 Some n \<Rightarrow> (case nested_title n of None \<Rightarrow> PStr UNKNOWN_TRACK | Some v \<Rightarrow> v)
               | None \<Rightarrow> title0)
         else title0)"

definition resolve_artists :: "fields \<Rightarrow> exn + pyscalar list" where
  "resolve_artists t =
     (case truthy_list (artists t) of
        Some xs \<Rightarrow> Inr (artist_names xs)
      | None \<Rightarrow>
          (case truthy_list (artists_name t) of
             Some names \<Rightarrow> Inr names
           | None \<Rightarrow>
               (case truthy_obj (track t) of
                  Some n \<Rightarrow>
                    (case nested_artists n of
                       Some v \<Rightarrow>
                         (case iterate v of Inl e \<Rightarrow> Inl e | Inr xs \<Rightarrow> Inr (artist_names xs))
                     | None \<Rightarrow> Inr [])
                | None \<Rightarrow> Inr [])))"

text \<open>\<^verbatim>\<open>album = xs[0]\<close>, then \<^verbatim>\<open>getattr(album, 'id', None)\<close>.\<close>

definition first_album_id :: "album list \<Rightarrow> exn + pyscalar" where
  "first_album_id xs =
     (case xs of
        [] \<Rightarrow> Inl (IndexError (ascii ''list index out of range''))
      | a # rest \<Rightarrow> Inr (case album_id_attr a of None \<Rightarrow> PNone | Some v \<Rightarrow> v))"

definition resolve_album_id :: "fields \<Rightarrow> exn + pyscalar" where
  "resolve_album_id t =
     (case truthy_list (albums t) of
        Some xs \<Rightarrow> first_album_id xs
      | None \<Rightarrow>
          (case truthy_attr (album_id t) of
             Some v \<Rightarrow> Inr v
           | None \<Rightarrow>
               (case truthy_obj (track t) of
                  Some n \<Rightarrow>
                    (case truthy_list (nested_albums n) of
                       Some xs \<Rightarrow> first_album_id xs
                     | None \<Rightarrow> Inr PNone)
                | None \<Rightarrow> Inr PNone)))"

definition track_url :: "pyscalar \<Rightarrow> pystr \<Rightarrow> pystr" where
  "track_url aid tid =
     (if truthy aid
      then ascii ''https://music.yandex.ru/album/'' @ py_str aid @ ascii ''/track/'' @ tid
      else ascii ''https://music.yandex.ru/track/'' @ tid)"

text \<open>The statements inside the \<^verbatim>\<open>try\<close> of \<^verbatim>\<open>get_track_info\<close>.\<close>

definition get_track_info_try :: "entry \<Rightarrow> exn + track_info option" where
  "get_track_info_try t =
     (case get_track_id t of
        None \<Rightarrow> Inr None
      | Some tid \<Rightarrow>
          if tid = [] then Inr None
          else
            (let full = fetched t;
                 title1 = resolve_title full
             in case resolve_artists full of
                  Inl e \<Rightarrow> Inl e
                | Inr names \<Rightarrow>
                    (case (if names \<noteq> [] then join names else Inr UNKNOWN_ARTIST) of
                       Inl e \<Rightarrow> Inl e
                     | Inr artists_str \<Rightarrow>
                         (case resolve_album_id full of
                            Inl e \<Rightarrow> Inl e
                          | Inr aid \<Rightarrow>
                              Inr (Some \<lparr>info_id = tid, info_title = title1,
                                         info_artists = artists_str,
                                         info_url = track_url aid tid\<rparr>)))))"

text \<open>The method before decoration: \<^verbatim>\<open>except Exception\<close> turns every failure into \<^verbatim>\<open>None\<close>.\<close>

definition get_track_info_undecorated :: "entry \<Rightarrow> exn + track_info option" where
  "get_track_info_undecorated t = try_except (get_track_info_try t) (\<lambda>e. Inr None)"

text \<open>
  \<^verbatim>\<open>@retry_on_error(max_retries=3, delay=0.5)\<close>. The wrapper returns what the method
  returns, or \<^verbatim>\<open>None\<close> when its loop is exhausted. The delays of the two decorated
  methods are the numbers 0.5 and 1, so their clock is one on rationals.
\<close>

definition get_track_info ::
  "rat clock \<Rightarrow> entry \<Rightarrow> (exn + track_info option) \<times> rat event list" where
  "get_track_info c t =
     (case retry_on_error c 3 (1 / 2) (\<lambda>attempt. get_track_info_undecorated t) of
        (Inl e, evs) \<Rightarrow> (Inl e, evs)
      | (Inr None, evs) \<Rightarrow> (Inr None, evs)
      | (Inr (Some r), evs) \<Rightarrow> (Inr r, evs))"

section \<open>yandex\_service.py: the playlist fetchers\<close>

text \<open>
  What \<^verbatim>\<open>response.json()\<close> returns: a parsed JSON document (numbers are integers here;
  an object is the list of its members, with distinct keys).
\<close>

datatype jsonval =
    JNull
  | JBool bool
  | JNum int
  | JStr pystr
  | JArr "jsonval list"
  | JObj "(pystr \<times> jsonval) list"

fun json_type_name :: "jsonval \<Rightarrow> pystr" where
  "json_type_name JNull = ascii ''NoneType''"
| "json_type_name (JBool b) = ascii ''bool''"
| "json_type_name (JNum n) = ascii ''int''"
| "json_type_name (JStr s) = ascii ''str''"
| "json_type_name (JArr xs) = ascii ''list''"
| "json_type_name (JObj kvs) = ascii ''dict''"

fun json_truthy :: "jsonval \<Rightarrow> bool" where
  "json_truthy JNull = False"
| "json_truthy (JBool b) = b"
| "json_truthy (JNum n) = (n \<noteq> 0)"
| "json_truthy (JStr s) = (s \<noteq> [])"
| "json_truthy (JArr xs) = (xs \<noteq> [])"
| "json_truthy (JObj kvs) = (kvs \<noteq> [])"

text \<open>\<^verbatim>\<open>d.get(key, default)\<close>: only a \<^verbatim>\<open>dict\<close> has the method.\<close>

fun json_get :: "jsonval \<Rightarrow> string \<Rightarrow> jsonval \<Rightarrow> exn + jsonval" where
  "json_get (JObj kvs) key dflt =
     Inr (case map_of kvs (ascii key) of None \<Rightarrow> dflt | Some v \<Rightarrow> v)"
| "json_get v key dflt = Inl (no_attribute (json_type_name v) ''get'')"

text \<open>\<^verbatim>\<open>for x in v\<close>: the items of a list, the keys of a dict, the characters of a str.\<close>

fun json_iterate :: "jsonval \<Rightarrow> exn + jsonval list" where
  "json_iterate (JArr xs) = Inr xs"
| "json_iterate (JObj kvs) = Inr (map (\<lambda>kv. JStr (fst kv)) kvs)"
| "json_iterate (JStr s) = Inr (map (\<lambda>c. JStr [c]) s)"
| "json_iterate v = Inl (not_iterable (json_type_name v))"

record response =
  status_code :: int
  json_body :: "exn + jsonval"

text \<open>
  A playlist object of the client library: the attribute \<^verbatim>\<open>tracks\<close>, and \<^verbatim>\<open>fetch_tracks\<close>
  given by the outcome of calling it (it raises, or it loads the track list, which
  \<^verbatim>\<open>playlist.tracks\<close> holds afterwards). \<^verbatim>\<open>users_playlists\<close> returns one playlist or a
  list of them.
\<close>

record playlist =
  tracks :: "entry list nullable option"
  fetch_tracks :: "(exn + entry list nullable) option"

datatype playlists_value = OnePlaylist "playlist nullable" | PlaylistList "playlist nullable list"

text \<open>
  Everything outside the two source files that the pipeline reads: the tables of the
  Python runtime (the class \<^verbatim>\<open>\d\<close>, the white space of \<^verbatim>\<open>str.strip\<close>, \<^verbatim>\<open>str.lower\<close>), the
  order in which a set of strings is iterated (by a rank on strings: every order of a
  set is the order of some rank), which of the two workers completes first, the process
  environment, and the outcomes of the remote calls. \<open>client_users_playlists\<close> takes the
  number of the attempt that calls it. \<open>clock\<close> holds the two operations of the runtime on
  the delays of the decorated methods, and \<open>str_repr\<close> is \<^verbatim>\<open>repr\<close> on strings.
\<close>

record world =
  re_digit :: "nat \<Rightarrow> bool"
  str_isspace :: "nat \<Rightarrow> bool"
  str_lower :: "pystr \<Rightarrow> pystr"
  set_rank :: "pystr \<Rightarrow> nat"
  second_completes_first :: bool
  client_init :: "exn option"
  environ :: "pystr \<Rightarrow> pystr option"
  requests_get :: "pystr \<Rightarrow> (pystr \<times> pystr) list \<Rightarrow> exn + response"
  client_tracks :: "jsonval list \<Rightarrow> exn + entry list"
  client_users_playlists :: "nat \<Rightarrow> pystr \<Rightarrow> pystr \<Rightarrow> exn + playlists_value"
  clock :: "rat clock"
  str_repr :: "pystr \<Rightarrow> pystr"

definition MSG_NOT_FOUND :: pystr where
  "MSG_NOT_FOUND = [1055, 1083, 1077, 1081, 1083, 1080, 1089, 1090, 32, 1085, 1077, 32, 1085,
     1072, 1081, 1076, 1077, 1085, 32, 1080, 1083, 1080, 32, 1085, 1077, 32, 1089, 1086, 1076,
     1077, 1088, 1078, 1080, 1090, 32, 1090, 1088, 1077, 1082, 1086, 1074]"

definition MSG_GET_TRACKS :: pystr where
  "MSG_GET_TRACKS = [1053, 1077, 32, 1091, 1076, 1072, 1083, 1086, 1089, 1100, 32, 1087, 1086,
     1083, 1091, 1095, 1080, 1090, 1100, 32, 1090, 1088, 1077, 1082, 1080, 58, 32]"

definition MSG_GET_TRACKS_UUID :: pystr where
  "MSG_GET_TRACKS_UUID = [1053, 1077, 32, 1091, 1076, 1072, 1083, 1086, 1089, 1100, 32, 1087,
     1086, 1083, 1091, 1095, 1080, 1090, 1100, 32, 1090, 1088, 1077, 1082, 1080, 32, 1087, 1086,
     32, 85, 85, 73, 68, 58, 32]"

definition MSG_REQUEST :: pystr where
  "MSG_REQUEST = [1054, 1096, 1080, 1073, 1082, 1072, 32, 1087, 1088, 1080, 32, 1079, 1072,
     1087, 1088, 1086, 1089, 1077, 58, 32]"

definition MSG_NO_TOKEN :: pystr where
  "MSG_NO_TOKEN = ascii ''YANDEX_OAUTH_TOKEN environment variable is not set!''"

text \<open>The statements inside the \<^verbatim>\<open>try\<close> of \<^verbatim>\<open>get_tracks\<close>, on one attempt.\<close>

definition get_tracks_try :: "world \<Rightarrow> nat \<Rightarrow> pystr \<Rightarrow> pystr \<Rightarrow> exn + entry list nullable" where
  "get_tracks_try w attempt user playlist_id =
     and_then (client_users_playlists w attempt playlist_id user) (\<lambda>found.
     and_then (case found of
                 OnePlaylist p \<Rightarrow> Inr p
               | PlaylistList [] \<Rightarrow> Inl (IndexError (ascii ''list index out of range''))
               | PlaylistList (p # rest) \<Rightarrow> Inr p) (\<lambda>p.
     case p of
       Null \<Rightarrow> Inl (ValueError MSG_NOT_FOUND)
     | Val pl \<Rightarrow>
         (case tracks pl of
            None \<Rightarrow> Inl (ValueError MSG_NOT_FOUND)
          | Some held \<Rightarrow>
              (case fetch_tracks pl of
                 None \<Rightarrow> Inr held
               | Some (Inl e) \<Rightarrow> Inl e
               | Some (Inr loaded) \<Rightarrow> Inr loaded))))"

definition get_tracks_undecorated ::
  "world \<Rightarrow> nat \<Rightarrow> pystr \<Rightarrow> pystr \<Rightarrow> exn + entry list nullable" where
  "get_tracks_undecorated w attempt user playlist_id =
     try_except (get_tracks_try w attempt user playlist_id)
       (\<lambda>e. Inl (ValueError (MSG_GET_TRACKS @ exn_str e)))"

text \<open>\<^verbatim>\<open>@retry_on_error(max_retries=3, delay=1)\<close>\<close>

definition get_tracks ::
  "world \<Rightarrow> pystr \<Rightarrow> pystr \<Rightarrow> (exn + entry list nullable option) \<times> rat event list" where
  "get_tracks w user playlist_id =
     retry_on_error (clock w) 3 1
       (\<lambda>attempt. get_tracks_undecorated w attempt user playlist_id)"

text \<open>The loop over \<^verbatim>\<open>tracks_data\<close> that collects the identifiers.\<close>

fun collect_track_ids :: "jsonval list \<Rightarrow> exn + jsonval list" where
  "collect_track_ids [] = Inr []"
| "collect_track_ids (track_info # rest) =
     and_then (json_get track_info ''track'' (JObj [])) (\<lambda>track_data.
     and_then (json_get track_data ''id'' JNull) (\<lambda>tid.
     and_then (collect_track_ids rest) (\<lambda>ids.
     Inr (if json_truthy tid then tid # ids else ids))))"

definition request_headers :: "pystr \<Rightarrow> (pystr \<times> pystr) list" where
  "request_headers oauth_token =
     [(ascii ''Authorization'', ascii ''OAuth '' @ oauth_token),
      (ascii ''Content-Type'', ascii ''application/json; charset=utf-8''),
      (ascii ''User-Agent'', ascii ''Yandex-Music-API''),
      (ascii ''Accept'', ascii ''application/json'')]"

text \<open>
  The statements inside the \<^verbatim>\<open>try\<close> of \<^verbatim>\<open>get_tracks_by_uuid\<close>, with the URLs of the
  HTTP requests issued.
\<close>

definition get_tracks_by_uuid_try :: "world \<Rightarrow> pystr \<Rightarrow> (exn + entry list) \<times> pystr list" where
  "get_tracks_by_uuid_try w playlist_uuid =
     (case environ w (ascii ''YANDEX_OAUTH_TOKEN'') of
        None \<Rightarrow> (Inl (ValueError MSG_NO_TOKEN), [])
      | Some oauth_token \<Rightarrow>
          if oauth_token = [] then (Inl (ValueError MSG_NO_TOKEN), [])
          else
            (let url = ascii ''https://api.music.yandex.net/playlist/'' @ playlist_uuid
             in (and_then (requests_get w url (request_headers oauth_token)) (\<lambda>resp.
                 and_then (if status_code resp = 200
                           then and_then (json_body resp) (\<lambda>playlist_data.
                                and_then (json_get playlist_data ''result'' (JObj [])) (\<lambda>playlist_info.
                                and_then (json_get playlist_info ''tracks'' (JArr [])) (\<lambda>tracks_data.
                                and_then (json_iterate tracks_data) collect_track_ids)))
                           else Inl (ValueError (MSG_REQUEST @ str_int (status_code resp))))
                   (\<lambda>track_ids.
                 if track_ids \<noteq> [] then client_tracks w track_ids else Inr [])),
                 [url])))"

definition get_tracks_by_uuid_undecorated ::
  "world \<Rightarrow> pystr \<Rightarrow> (exn + entry list) \<times> pystr list" where
  "get_tracks_by_uuid_undecorated w playlist_uuid =
     (case get_tracks_by_uuid_try w playlist_uuid of
        (r, requests) \<Rightarrow>
          (try_except r (\<lambda>e. Inl (ValueError (MSG_GET_TRACKS_UUID @ exn_str e))), requests))"

text \<open>
  \<^verbatim>\<open>@lru_cache(maxsize=50)\<close> on the method: the memo table of one service instance,
  most recently used first. A hit returns the stored list and runs nothing; a miss runs
  the method and stores what it returns; an exception is not stored.
\<close>

type_synonym uuid_cache = "(pystr \<times> entry list) list"

definition get_tracks_by_uuid ::
  "world \<Rightarrow> uuid_cache \<Rightarrow> pystr \<Rightarrow> (exn + entry list) \<times> uuid_cache \<times> pystr list" where
  "get_tracks_by_uuid w cache playlist_uuid =
     (case map_of cache playlist_uuid of
        Some stored \<Rightarrow>
          (Inr stored, (playlist_uuid, stored) # filter (\<lambda>kv. fst kv \<noteq> playlist_uuid) cache, [])
      | None \<Rightarrow>
          (case get_tracks_by_uuid_undecorated w playlist_uuid of
             (Inl e, requests) \<Rightarrow> (Inl e, cache, requests)
           | (Inr found, requests) \<Rightarrow>
               (Inr found, take 50 ((playlist_uuid, found) # cache), requests)))"

section \<open>app.py: the comparator\<close>

text \<open>
  A Python \<^verbatim>\<open>dict\<close>: the items in insertion order, keys distinct. \<open>dict_set\<close> is
  \<^verbatim>\<open>d[k] = v\<close>: a key already there keeps its place and takes the new value.
\<close>

fun dict_set :: "('k \<times> 'v) list \<Rightarrow> 'k \<Rightarrow> 'v \<Rightarrow> ('k \<times> 'v) list" where
  "dict_set [] k v = [(k, v)]"
| "dict_set ((k', v') # d) k v = (if k' = k then (k, v) # d else (k', v') # dict_set d k v)"

text \<open>The loop of \<^verbatim>\<open>process_playlist\<close> that fills \<^verbatim>\<open>tracks_dict\<close>.\<close>

fun fill_tracks_dict :: "entry list \<Rightarrow> (pystr \<times> entry) list \<Rightarrow> (pystr \<times> entry) list" where
  "fill_tracks_dict [] tracks_dict = tracks_dict"
| "fill_tracks_dict (t # rest) tracks_dict =
     fill_tracks_dict rest
       (case get_track_id t of
          None \<Rightarrow> tracks_dict
        | Some tid \<Rightarrow> if tid \<noteq> [] then dict_set tracks_dict tid t else tracks_dict)"

text \<open>
  The value a fetcher hands to \<^verbatim>\<open>process_playlist\<close>. The service is made anew for each
  comparison, so the memo table of \<^verbatim>\<open>get_tracks_by_uuid\<close> starts empty; should the other
  worker have stored the same identifier first, the hit returns what the method returns,
  the world being a function.
\<close>

definition fetch_playlist :: "world \<Rightarrow> playlist_info \<Rightarrow> exn + entry list nullable" where
  "fetch_playlist w playlist_info =
     (case playlist_info of
        Uuid u \<Rightarrow> and_then (fst (get_tracks_by_uuid w [] u)) (\<lambda>found. Inr (Val found))
      | UserKind user kind \<Rightarrow>
          and_then (fst (get_tracks w user kind))
            (\<lambda>r. Inr (case r of None \<Rightarrow> Null | Some found \<Rightarrow> found)))"

text \<open>\<^verbatim>\<open>process_playlist\<close>: its handler logs and raises the exception again.\<close>

definition process_playlist :: "world \<Rightarrow> playlist_info \<Rightarrow> exn + (pystr \<times> entry) list" where
  "process_playlist w playlist_info =
     and_then (fetch_playlist w playlist_info) (\<lambda>found.
     and_then (iterate found) (\<lambda>entries.
     Inr (fill_tracks_dict entries [])))"

text \<open>The constructor of the service: \<^verbatim>\<open>Client().init()\<close> may raise.\<close>

definition YandexMusicService :: "world \<Rightarrow> exn + unit" where
  "YandexMusicService w = (case client_init w of Some e \<Rightarrow> Inl e | None \<Rightarrow> Inr ())"

text \<open>The loop over \<^verbatim>\<open>common_ids\<close> that collects the display records.\<close>

fun collect_common_tracks ::
  "world \<Rightarrow> (pystr \<times> entry) list \<Rightarrow> pystr list \<Rightarrow> exn + track_info list" where
  "collect_common_tracks w tracks1_dict [] = Inr []"
| "collect_common_tracks w tracks1_dict (tid # rest) =
     and_then (case map_of tracks1_dict tid of
                 None \<Rightarrow> Inl (KeyError (str_repr w tid))
               | Some t \<Rightarrow> Inr t) (\<lambda>t.
     and_then (fst (get_track_info (clock w) t)) (\<lambda>info.
     and_then (collect_common_tracks w tracks1_dict rest) (\<lambda>infos.
     Inr (case info of None \<Rightarrow> infos | Some i \<Rightarrow> i # infos))))"

text \<open>\<^verbatim>\<open>x['title'].lower()\<close>, the sort key.\<close>

definition title_key :: "world \<Rightarrow> track_info \<Rightarrow> exn + pystr" where
  "title_key w x =
     (case info_title x of
        PStr s \<Rightarrow> Inr (str_lower w s)
      | v \<Rightarrow> Inl (no_attribute (type_name v) ''lower''))"

fun title_keys :: "world \<Rightarrow> track_info list \<Rightarrow> exn + pystr list" where
  "title_keys w [] = Inr []"
| "title_keys w (x # xs) =
     and_then (title_key w x) (\<lambda>k.
     and_then (title_keys w xs) (\<lambda>ks. Inr (k # ks)))"

text \<open>
  \<^verbatim>\<open>common_tracks.sort(key=...)\<close>: the keys are computed first, one for each item; the
  sort is stable.
\<close>

definition sort_by_title :: "world \<Rightarrow> track_info list \<Rightarrow> exn + track_info list" where
  "sort_by_title w xs =
     and_then (title_keys w xs) (\<lambda>ks. Inr (map snd (sort_key fst (zip ks xs))))"

text \<open>The order in which \<^verbatim>\<open>for track_id in common_ids\<close> visits the set.\<close>

definition set_iteration :: "world \<Rightarrow> pystr list \<Rightarrow> pystr list" where
  "set_iteration w ids = sort_key (set_rank w) ids"

record comparison =
  common_tracks :: "track_info list"
  error :: "pystr option"

text \<open>
  The statements inside the \<^verbatim>\<open>try\<close> of \<^verbatim>\<open>process_playlists_async\<close>. \<^verbatim>\<open>as_completed\<close>
  yields the two futures in the order in which they complete, \<^verbatim>\<open>future.result()\<close> raises
  what the worker raised, and \<^verbatim>\<open>results\<close> is unpacked in that order.
\<close>

definition process_playlists_async_try :: "world \<Rightarrow> pystr \<Rightarrow> pystr \<Rightarrow> exn + comparison" where
  "process_playlists_async_try w url1 url2 =
     and_then (YandexMusicService w) (\<lambda>service.
     and_then (parse_playlist_url_cached (re_digit w) url1) (\<lambda>playlist1_info.
     and_then (parse_playlist_url_cached (re_digit w) url2) (\<lambda>playlist2_info.
     (let future1 = process_playlist w playlist1_info;
          future2 = process_playlist w playlist2_info;
          completed = (if second_completes_first w then (future2, future1)
                       else (future1, future2))
      in and_then (fst completed) (\<lambda>tracks1_dict.
         and_then (snd completed) (\<lambda>tracks2_dict.
         (let common_ids =
                set_iteration w
                  (filter (\<lambda>k. k \<in> set (map fst tracks2_dict)) (map fst tracks1_dict))
          in and_then (collect_common_tracks w tracks1_dict common_ids) (\<lambda>infos.
             and_then (sort_by_title w infos) (\<lambda>sorted_tracks.
             Inr \<lparr>common_tracks = sorted_tracks, error = None\<rparr>)))))))))"

definition process_playlists_async :: "world \<Rightarrow> pystr \<Rightarrow> pystr \<Rightarrow> exn + comparison" where
  "process_playlists_async w url1 url2 =
     try_except (process_playlists_async_try w url1 url2)
       (\<lambda>e. Inr \<lparr>common_tracks = [], error = Some (exn_str e)\<rparr>)"

section \<open>app.py: the endpoint\<close>

text \<open>
  The request as \<^verbatim>\<open>index\<close> reads it: the method, the header \<^verbatim>\<open>X-Requested-With\<close>, and
  \<^verbatim>\<open>request.json\<close> (a dict of scalars, or \<^verbatim>\<open>None\<close>). The reply is what \<^verbatim>\<open>jsonify\<close> is given,
  key by key, or the rendered form.
\<close>

record request =
  http_method :: pystr
  x_requested_with :: "pystr option"
  json :: "(pystr \<times> pyscalar) list nullable"

datatype reply_value = RNone | RStr pystr | RTracks "track_info list"

datatype reply = Jsonify "(pystr \<times> reply_value) list" | RenderTemplate pystr

definition MSG_ENTER_BOTH :: pystr where
  "MSG_ENTER_BOTH = [1042, 1074, 1077, 1076, 1080, 1090, 1077, 32, 1086, 1073, 1077, 32, 1089,
     1089, 1099, 1083, 1082, 1080, 32, 1085, 1072, 32, 1087, 1083, 1077, 1081, 1083, 1080, 1089,
     1090, 1099]"

definition strip :: "(nat \<Rightarrow> bool) \<Rightarrow> pystr \<Rightarrow> pystr" where
  "strip isspace s = rev (dropWhile isspace (rev (dropWhile isspace s)))"

text \<open>\<^verbatim>\<open>request.json.get(key, '').strip()\<close>\<close>

definition submitted :: "world \<Rightarrow> request \<Rightarrow> string \<Rightarrow> exn + pystr" where
  "submitted w req key =
     (case json req of
        Null \<Rightarrow> Inl (no_attribute (ascii ''NoneType'') ''get'')
      | Val body \<Rightarrow>
          (case (case map_of body (ascii key) of None \<Rightarrow> PStr [] | Some v \<Rightarrow> v) of
             PStr s \<Rightarrow> Inr (strip (str_isspace w) s)
           | v \<Rightarrow> Inl (no_attribute (type_name v) ''strip'')))"

definition jsonify_result :: "comparison \<Rightarrow> reply" where
  "jsonify_result r =
     Jsonify [(ascii ''common_tracks'', RTracks (common_tracks r)),
              (ascii ''error'', (case error r of None \<Rightarrow> RNone | Some m \<Rightarrow> RStr m))]"

definition index :: "world \<Rightarrow> request \<Rightarrow> exn + reply" where
  "index w req =
     (if http_method req = ascii ''POST'' \<and> x_requested_with req = Some (ascii ''XMLHttpRequest'')
      then
        and_then (submitted w req ''playlist1'') (\<lambda>url1.
        and_then (submitted w req ''playlist2'') (\<lambda>url2.
        if url1 = [] \<or> url2 = [] then Inr (Jsonify [(ascii ''error'', RStr MSG_ENTER_BOTH)])
        else
          (case and_then (parse_playlist_url_cached (re_digit w) url1)
                  (\<lambda>parsed. parse_playlist_url_cached (re_digit w) url2) of
             Inl (ValueError m) \<Rightarrow> Inr (Jsonify [(ascii ''error'', RStr m)])
           | Inl e \<Rightarrow> Inl e
           | Inr parsed \<Rightarrow>
               and_then (process_playlists_async w url1 url2) (\<lambda>result.
               Inr (jsonify_result result)))))
      else Inr (RenderTemplate (ascii ''index.html'')))"

section \<open>The shapes of a playlist reference\<close>

text \<open>
  \<open>uuid_shape url pre tok rest\<close>: the string holds, after \<open>pre\<close>, the literal
  \<^verbatim>\<open>music.yandex.ru/playlists/\<close> and a token, a non-empty run without \<^verbatim>\<open>/\<close> and \<^verbatim>\<open>?\<close>.
  \<open>user_shape\<close>: it holds \<^verbatim>\<open>music.yandex.ru/users/<owner>/playlists/<digits>\<close>, the
  owner a non-empty run without \<^verbatim>\<open>/\<close>, the digits a non-empty run of decimal digits.
\<close>

definition uuid_shape :: "pystr \<Rightarrow> pystr \<Rightarrow> pystr \<Rightarrow> pystr \<Rightarrow> bool" where
  "uuid_shape url pre tok rest =
     (url = pre @ UUID_PREFIX @ tok @ rest \<and> tok \<noteq> [] \<and> slash \<notin> set tok \<and> qmark \<notin> set tok)"

definition user_shape :: "(nat \<Rightarrow> bool) \<Rightarrow> pystr \<Rightarrow> pystr \<Rightarrow> pystr \<Rightarrow> pystr \<Rightarrow> pystr \<Rightarrow> bool" where
  "user_shape isdigit url pre owner ds rest =
     (url = pre @ USER_PREFIX @ owner @ PLAYLISTS_PART @ ds @ rest \<and> owner \<noteq> [] \<and> slash \<notin> set owner
      \<and> ds \<noteq> [] \<and> list_all isdigit ds)"

definition contains_uuid_shape :: "pystr \<Rightarrow> bool" where
  "contains_uuid_shape url = (\<exists>pre tok rest. uuid_shape url pre tok rest)"

definition contains_user_shape :: "(nat \<Rightarrow> bool) \<Rightarrow> pystr \<Rightarrow> bool" where
  "contains_user_shape isdigit url = (\<exists>pre owner ds rest. user_shape isdigit url pre owner ds rest)"

section \<open>The effects of a retried call\<close>

text \<open>
  What the wrapper does when attempts \<open>0, \<dots>, j - 1\<close> fail and attempt \<open>j\<close> ends the
  loop: each failed attempt \<open>k\<close> (the \<open>(k + 1)\<close>-th) is followed by a sleep of
  \<open>d * (k + 1)\<close>, then attempt \<open>j\<close> is made. \<open>sleeps_complete c d j\<close>: \<^verbatim>\<open>time.sleep\<close>
  accepts each of these \<open>j\<close> lengths.
\<close>

definition backoff_trace :: "'d clock \<Rightarrow> 'd \<Rightarrow> nat \<Rightarrow> 'd event list" where
  "backoff_trace c d j =
     concat (map (\<lambda>k. [Call k, Sleep (mul c d (k + 1))]) [0 ..< j]) @ [Call j]"

definition sleeps_complete :: "'d clock \<Rightarrow> 'd \<Rightarrow> nat \<Rightarrow> bool" where
  "sleeps_complete c d j = list_all (\<lambda>k. time_sleep c (mul c d (k + 1)) = None) [0 ..< j]"

section \<open>The entry a key is bound to\<close>

text \<open>The last entry of the sequence whose extracted identifier is \<open>k\<close>, if there is one.\<close>

definition last_with_id :: "entry list \<Rightarrow> pystr \<Rightarrow> entry option" where
  "last_with_id entries k =
     (case filter (\<lambda>t. get_track_id t = Some k) entries of
        [] \<Rightarrow> None
      | t # ts \<Rightarrow> Some (last (t # ts)))"

section \<open>Example data\<close>

text \<open>
  \<open>ascii_lower\<close> is \<^verbatim>\<open>str.lower\<close> on ASCII strings. \<open>example_clock\<close> is a clock on
  rationals that agrees with the runtime on the numbers of the examples (0.5, 1 and their
  first multiples: the products are exact and the sleeps complete; and -1, a negative
  length, which \<^verbatim>\<open>time.sleep\<close> rejects). \<open>example_entry n s\<close> is an entry with
  the identifier \<open>n\<close> and the title \<open>s\<close> and no other attribute. In \<open>example_world\<close> every
  playlist is found at the first attempt: the playlist numbered \<open>kind\<close> holds the entries
  \<open>playlists kind\<close>; its \<open>str_repr\<close> puts the string in single quotes, as \<^verbatim>\<open>repr\<close> does for
  the identifiers of the examples.
\<close>

definition ascii_lower :: "pystr \<Rightarrow> pystr" where
  "ascii_lower s = map (\<lambda>c. if 65 \<le> c \<and> c \<le> 90 then c + 32 else c) s"

definition example_clock :: "rat clock" where
  "example_clock =
     \<lparr>mul = (\<lambda>d k. d * of_nat k),
      time_sleep = (\<lambda>t. if t < 0
                         then Some (ValueError (ascii ''sleep length must be non-negative''))
                         else None)\<rparr>"

definition example_entry :: "int \<Rightarrow> string \<Rightarrow> entry" where
  "example_entry n s =
     \<lparr>title = Some (PStr (ascii s)), track = None, artists = None, artists_name = None,
      albums = None, album_id = None, id_attr = Some (PInt n), track_id = None,
      fetch_track = None\<rparr>"

definition example_world :: "(pystr \<Rightarrow> entry list) \<Rightarrow> bool \<Rightarrow> world" where
  "example_world playlists swapped =
     \<lparr>re_digit = (\<lambda>c. 48 \<le> c \<and> c \<le> 57),
      str_isspace = (\<lambda>c. c = 32),
      str_lower = ascii_lower,
      set_rank = length,
      second_completes_first = swapped,
      client_init = None,
      environ = (\<lambda>var. None),
      requests_get = (\<lambda>url headers. Inl (OtherException (ascii ''no network''))),
      client_tracks = (\<lambda>ids. Inr []),
      client_users_playlists = (\<lambda>attempt playlist_id user.
         Inr (OnePlaylist (Val \<lparr>tracks = Some (Val (playlists playlist_id)),
                                 fetch_tracks = None\<rparr>))),
      clock = example_clock,
      str_repr = (\<lambda>s. ascii [CHR 0x27] @ s @ ascii [CHR 0x27])\<rparr>"

section \<open>Entries without display fields\<close>

text \<open>
  The object has no \<^verbatim>\<open>title\<close>, no \<^verbatim>\<open>artists\<close> and no \<^verbatim>\<open>artists_name\<close> attribute, and
  the object under its \<^verbatim>\<open>track\<close> attribute, if there is one, has no \<^verbatim>\<open>title\<close> and no
  \<^verbatim>\<open>artists\<close> attribute. \<open>short_entry\<close> is a short entry of that kind whose
  \<^verbatim>\<open>fetch_track\<close> returns the full track.
\<close>

definition no_display_fields :: "fields \<Rightarrow> bool" where
  "no_display_fields f =
     (title f = None \<and> artists f = None \<and> artists_name f = None
      \<and> (case truthy_obj (track f) of
            None \<Rightarrow> True
          | Some n \<Rightarrow> nested_title n = None \<and> nested_artists n = None))"

definition short_entry :: entry where
  "short_entry =
     \<lparr>title = None, track = None, artists = None, artists_name = None,
      albums = None, album_id = None, id_attr = Some (PInt 5), track_id = None,
      fetch_track = Some (Inr \<lparr>title = Some (PStr (ascii ''Song'')), track = None,
                               artists = Some (Val [\<lparr>name = Some (PStr (ascii ''Band''))\<rparr>]),
                               artists_name = None, albums = None, album_id = None\<rparr>)\<rparr>"

section \<open>The memo table after earlier calls\<close>

text \<open>The memo table of a service after the calls for \<open>earlier\<close>, made in that order.\<close>

fun cache_after :: "world \<Rightarrow> uuid_cache \<Rightarrow> pystr list \<Rightarrow> uuid_cache" where
  "cache_after w cache [] = cache"
| "cache_after w cache (u # us) = cache_after w (fst (snd (get_tracks_by_uuid w cache u))) us"

section \<open>Failures upstream of the comparison\<close>

text \<open>
  The service cannot be made, or one of the two strings does not parse, or the fetch of
  one of the two playlists fails. \<open>example_url kind\<close> is the address of the playlist
  numbered \<open>kind\<close> of the user \<^verbatim>\<open>u\<close>.
\<close>

definition upstream_failure :: "world \<Rightarrow> pystr \<Rightarrow> pystr \<Rightarrow> bool" where
  "upstream_failure w url1 url2 =
     (client_init w \<noteq> None
      \<or> (case parse_playlist_url_cached (re_digit w) url1 of
            Inl e \<Rightarrow> True
          | Inr playlist1_info \<Rightarrow>
              (case parse_playlist_url_cached (re_digit w) url2 of
                 Inl e \<Rightarrow> True
               | Inr playlist2_info \<Rightarrow>
                   isl (fetch_playlist w playlist1_info) \<or> isl (fetch_playlist w playlist2_info))))"

definition example_url :: "string \<Rightarrow> pystr" where
  "example_url kind = ascii ''music.yandex.ru/users/u/playlists/'' @ ascii kind"

text \<open>An AJAX request that submits the two fields.\<close>

definition example_request :: "pystr \<Rightarrow> pystr \<Rightarrow> request" where
  "example_request field1 field2 =
     \<lparr>http_method = ascii ''POST'', x_requested_with = Some (ascii ''XMLHttpRequest''),
      json = Val [(ascii ''playlist1'', PStr field1), (ascii ''playlist2'', PStr field2)]\<rparr>"

section \<open>The sort key and the example playlists\<close>

text \<open>
  \<open>lowered_title\<close> is the key that the result is sorted by. \<open>example_info n s\<close> is the
  display record of \<open>example_entry n s\<close>. \<open>banana_playlists\<close> are two playlists that share
  the identifiers 5, 9 and 2, with the titles Banana, apple and Cherry; \<open>banana_info\<close>
  gives the display record of each shared identifier. \<open>ab_playlists\<close> are two playlists
  that hold the identifier 5 under different titles.
\<close>

definition lowered_title :: "world \<Rightarrow> track_info \<Rightarrow> pystr" where
  "lowered_title w x = (case info_title x of PStr s \<Rightarrow> str_lower w s | _ \<Rightarrow> [])"

definition example_info :: "int \<Rightarrow> string \<Rightarrow> track_info" where
  "example_info n s =
     \<lparr>info_id = str_int n, info_title = PStr (ascii s), info_artists = UNKNOWN_ARTIST,
      info_url = ascii ''https://music.yandex.ru/track/'' @ str_int n\<rparr>"

definition banana_playlists :: "pystr \<Rightarrow> entry list" where
  "banana_playlists kind =
     (if kind = ascii ''1''
      then [example_entry 5 ''Banana'', example_entry 9 ''apple'', example_entry 2 ''Cherry'',
            example_entry 7 ''Date'']
      else [example_entry 2 ''Cherry'', example_entry 4 ''Elder'', example_entry 5 ''Banana'',
            example_entry 9 ''apple''])"

definition banana_info :: "pystr \<Rightarrow> track_info" where
  "banana_info k =
     (if k = ascii ''5'' then example_info 5 ''Banana''
      else if k = ascii ''9'' then example_info 9 ''apple''
      else example_info 2 ''Cherry'')"

definition ab_playlists :: "pystr \<Rightarrow> entry list" where
  "ab_playlists kind =
     (if kind = ascii ''1'' then [example_entry 5 ''A''] else [example_entry 5 ''B''])"

section \<open>Properties of the reference parser\<close>

lemma strip_prefix_Some: "strip_prefix p s = Some r \<longleftrightarrow> s = p @ r"
  by (induction p s rule: strip_prefix.induct) auto

lemma strip_prefix_None: "strip_prefix p s = None \<longleftrightarrow> (\<forall>r. s \<noteq> p @ r)"
  by (induction p s rule: strip_prefix.induct) auto

lemma re_search_None: "re_search m s = None \<longleftrightarrow> (\<forall>pre suf. s = pre @ suf \<longrightarrow> m suf = None)"
proof (induction s)
  case Nil
  then show ?case by simp
next
  case (Cons c cs)
  show ?case
  proof
    assume a: "re_search m (c # cs) = None"
    then have h1: "m (c # cs) = None" and h2: "re_search m cs = None"
      by (auto split: option.splits)
    show "\<forall>pre suf. c # cs = pre @ suf \<longrightarrow> m suf = None"
    proof (intro allI impI)
      fix pre suf assume e: "c # cs = pre @ suf"
      show "m suf = None"
      proof (cases pre)
        case Nil
        with e h1 show ?thesis by simp
      next
        case (Cons p ps)
        with e have "cs = ps @ suf" by simp
        with h2 Cons.IH show ?thesis by blast
      qed
    qed
  next
    assume a: "\<forall>pre suf. c # cs = pre @ suf \<longrightarrow> m suf = None"
    then have "m (c # cs) = None" by (metis append_Nil)
    moreover have "\<forall>pre suf. cs = pre @ suf \<longrightarrow> m suf = None"
      using a by (metis append_Cons)
    ultimately show "re_search m (c # cs) = None" using Cons.IH by simp
  qed
qed

lemma re_search_Some:
  "re_search m s = Some g \<Longrightarrow>
     \<exists>pre suf. s = pre @ suf \<and> m suf = Some g \<and>
       (\<forall>pre' suf'. s = pre' @ suf' \<and> length pre' < length pre \<longrightarrow> m suf' = None)"
proof (induction s)
  case Nil
  then show ?case by simp
next
  case (Cons c cs)
  show ?case
  proof (cases "m (c # cs)")
    case (Some g')
    with Cons.prems have "g' = g" by simp
    with Some have "c # cs = [] @ (c # cs) \<and> m (c # cs) = Some g \<and>
       (\<forall>pre' suf'. c # cs = pre' @ suf' \<and> length pre' < length ([]::pystr) \<longrightarrow> m suf' = None)"
      by simp
    then show ?thesis by blast
  next
    case None
    with Cons.prems have "re_search m cs = Some g" by simp
    from Cons.IH[OF this] obtain pre suf where
      e: "cs = pre @ suf" and ms: "m suf = Some g" and
      least: "\<forall>pre' suf'. cs = pre' @ suf' \<and> length pre' < length pre \<longrightarrow> m suf' = None"
      by blast
    have "\<forall>pre' suf'. c # cs = pre' @ suf' \<and> length pre' < length (c # pre) \<longrightarrow> m suf' = None"
    proof (intro allI impI)
      fix pre' suf' assume h: "c # cs = pre' @ suf' \<and> length pre' < length (c # pre)"
      show "m suf' = None"
      proof (cases pre')
        case Nil
        with h None show ?thesis by simp
      next
        case (Cons p ps)
        with h have "cs = ps @ suf' \<and> length ps < length pre" by simp
        with least show ?thesis by blast
      qed
    qed
    with e ms have "c # cs = (c # pre) @ suf \<and> m suf = Some g \<and>
       (\<forall>pre' suf'. c # cs = pre' @ suf' \<and> length pre' < length (c # pre) \<longrightarrow> m suf' = None)"
      by simp
    then show ?thesis by blast
  qed
qed

lemma uuid_match_at_Some:
  "uuid_match_at s = Some tok \<longleftrightarrow>
     (\<exists>rest. s = UUID_PREFIX @ tok @ rest \<and> tok \<noteq> [] \<and> slash \<notin> set tok \<and> qmark \<notin> set tok
        \<and> (rest = [] \<or> hd rest = slash \<or> hd rest = qmark))"
proof
  assume a: "uuid_match_at s = Some tok"
  then obtain r where r: "s = UUID_PREFIX @ r"
    and t: "tok = takeWhile (\<lambda>c. c \<noteq> slash \<and> c \<noteq> qmark) r" and ne: "tok \<noteq> []"
    by (auto simp: uuid_match_at_def Let_def strip_prefix_Some split: option.splits if_splits)
  let ?P = "\<lambda>c. c \<noteq> slash \<and> c \<noteq> qmark"
  let ?rest = "dropWhile ?P r"
  have "r = tok @ ?rest" using t by simp
  moreover have "slash \<notin> set tok \<and> qmark \<notin> set tok"
    using t by (metis (mono_tags, lifting) set_takeWhileD)
  moreover have "?rest = [] \<or> hd ?rest = slash \<or> hd ?rest = qmark"
    using hd_dropWhile[of ?P r] by blast
  ultimately show "\<exists>rest. s = UUID_PREFIX @ tok @ rest \<and> tok \<noteq> [] \<and> slash \<notin> set tok \<and> qmark \<notin> set tok
        \<and> (rest = [] \<or> hd rest = slash \<or> hd rest = qmark)"
    using r ne by blast
next
  assume "\<exists>rest. s = UUID_PREFIX @ tok @ rest \<and> tok \<noteq> [] \<and> slash \<notin> set tok \<and> qmark \<notin> set tok
        \<and> (rest = [] \<or> hd rest = slash \<or> hd rest = qmark)"
  then obtain rest where s: "s = UUID_PREFIX @ tok @ rest" and ne: "tok \<noteq> []"
    and ok: "slash \<notin> set tok \<and> qmark \<notin> set tok"
    and mx: "rest = [] \<or> hd rest = slash \<or> hd rest = qmark" by blast
  let ?P = "\<lambda>c. c \<noteq> slash \<and> c \<noteq> qmark"
  have all: "\<forall>c\<in>set tok. ?P c" using ok by auto
  have "takeWhile ?P rest = []" using mx by (cases rest) auto
  with all have "takeWhile ?P (tok @ rest) = tok" by simp
  moreover have "strip_prefix UUID_PREFIX s = Some (tok @ rest)"
    using s by (simp add: strip_prefix_Some)
  ultimately show "uuid_match_at s = Some tok"
    using ne by (simp add: uuid_match_at_def)
qed

lemma uuid_match_at_None:
  "uuid_match_at s = None \<longleftrightarrow>
     \<not> (\<exists>tok rest. s = UUID_PREFIX @ tok @ rest \<and> tok \<noteq> [] \<and> slash \<notin> set tok \<and> qmark \<notin> set tok)"
proof
  assume a: "uuid_match_at s = None"
  show "\<not> (\<exists>tok rest. s = UUID_PREFIX @ tok @ rest \<and> tok \<noteq> [] \<and> slash \<notin> set tok \<and> qmark \<notin> set tok)"
  proof
    assume "\<exists>tok rest. s = UUID_PREFIX @ tok @ rest \<and> tok \<noteq> [] \<and> slash \<notin> set tok \<and> qmark \<notin> set tok"
    then obtain tok rest where s: "s = UUID_PREFIX @ tok @ rest" and ne: "tok \<noteq> []"
      and ok: "slash \<notin> set tok \<and> qmark \<notin> set tok" by blast
    let ?P = "\<lambda>c. c \<noteq> slash \<and> c \<noteq> qmark"
    have "?P (hd tok)" using ne ok by (metis hd_in_set)
    then have "takeWhile ?P (tok @ rest) \<noteq> []" using ne by (cases tok) auto
    moreover have "strip_prefix UUID_PREFIX s = Some (tok @ rest)"
      using s by (simp add: strip_prefix_Some)
    ultimately show False using a by (simp add: uuid_match_at_def)
  qed
next
  assume n: "\<not> (\<exists>tok rest. s = UUID_PREFIX @ tok @ rest \<and> tok \<noteq> [] \<and> slash \<notin> set tok \<and> qmark \<notin> set tok)"
  show "uuid_match_at s = None"
  proof (cases "uuid_match_at s")
    case None
    then show ?thesis .
  next
    case (Some tok)
    then have "\<exists>rest. s = UUID_PREFIX @ tok @ rest \<and> tok \<noteq> [] \<and> slash \<notin> set tok \<and> qmark \<notin> set tok
        \<and> (rest = [] \<or> hd rest = slash \<or> hd rest = qmark)"
      by (simp only: uuid_match_at_Some)
    with n show ?thesis by blast
  qed
qed

lemma user_match_at_Some:
  "user_match_at isdigit s = Some (owner, ds) \<longleftrightarrow>
     (\<exists>rest. s = USER_PREFIX @ owner @ PLAYLISTS_PART @ ds @ rest \<and> owner \<noteq> [] \<and> slash \<notin> set owner
        \<and> ds \<noteq> [] \<and> list_all isdigit ds \<and> (rest = [] \<or> \<not> isdigit (hd rest)))"
proof
  assume a: "user_match_at isdigit s = Some (owner, ds)"
  then obtain r r2 where r: "s = USER_PREFIX @ r"
    and o: "owner = takeWhile (\<lambda>c. c \<noteq> slash) r" and one: "owner \<noteq> []"
    and r2: "dropWhile (\<lambda>c. c \<noteq> slash) r = PLAYLISTS_PART @ r2"
    and d: "ds = takeWhile isdigit r2" and dne: "ds \<noteq> []"
    by (auto simp: user_match_at_def Let_def strip_prefix_Some split: option.splits if_splits)
  have "r = owner @ PLAYLISTS_PART @ r2" using o r2 by (metis takeWhile_dropWhile_id)
  moreover have "r2 = ds @ dropWhile isdigit r2" using d by simp
  moreover have "slash \<notin> set owner" using o by (metis (mono_tags, lifting) set_takeWhileD)
  moreover have "list_all isdigit ds" using d by (metis list_all_iff set_takeWhileD)
  moreover have "dropWhile isdigit r2 = [] \<or> \<not> isdigit (hd (dropWhile isdigit r2))"
    using hd_dropWhile[of isdigit r2] by blast
  ultimately show "\<exists>rest. s = USER_PREFIX @ owner @ PLAYLISTS_PART @ ds @ rest \<and> owner \<noteq> [] \<and> slash \<notin> set owner
        \<and> ds \<noteq> [] \<and> list_all isdigit ds \<and> (rest = [] \<or> \<not> isdigit (hd rest))"
    using r one dne by metis
next
  assume "\<exists>rest. s = USER_PREFIX @ owner @ PLAYLISTS_PART @ ds @ rest \<and> owner \<noteq> [] \<and> slash \<notin> set owner
        \<and> ds \<noteq> [] \<and> list_all isdigit ds \<and> (rest = [] \<or> \<not> isdigit (hd rest))"
  then obtain rest where s: "s = USER_PREFIX @ owner @ PLAYLISTS_PART @ ds @ rest"
    and one: "owner \<noteq> []" and ok: "slash \<notin> set owner" and dne: "ds \<noteq> []"
    and dd: "list_all isdigit ds" and mx: "rest = [] \<or> \<not> isdigit (hd rest)" by blast
  let ?P = "\<lambda>c. c \<noteq> slash"
  have hdp: "hd (PLAYLISTS_PART @ ds @ rest) = slash"
    by (simp add: PLAYLISTS_PART_def ascii_def slash_def)
  have pne: "PLAYLISTS_PART @ ds @ rest \<noteq> []" using dne by simp
  have allo: "\<forall>c\<in>set owner. ?P c" using ok by auto
  have tw0: "takeWhile ?P (PLAYLISTS_PART @ ds @ rest) = []"
    using hdp pne by (cases "PLAYLISTS_PART @ ds @ rest") auto
  have dw0: "dropWhile ?P (PLAYLISTS_PART @ ds @ rest) = PLAYLISTS_PART @ ds @ rest"
    using hdp pne by (cases "PLAYLISTS_PART @ ds @ rest") auto
  have tw: "takeWhile ?P (owner @ PLAYLISTS_PART @ ds @ rest) = owner"
    using allo tw0 by simp
  have dw: "dropWhile ?P (owner @ PLAYLISTS_PART @ ds @ rest) = PLAYLISTS_PART @ ds @ rest"
    using allo dw0 by simp
  have "takeWhile isdigit rest = []" using mx by (cases rest) auto
  moreover have "\<forall>c\<in>set ds. isdigit c" using dd by (simp add: list_all_iff)
  ultimately have twd: "takeWhile isdigit (ds @ rest) = ds" by simp
  have sp1: "strip_prefix USER_PREFIX s = Some (owner @ PLAYLISTS_PART @ ds @ rest)"
    using s by (simp add: strip_prefix_Some)
  have sp2: "strip_prefix PLAYLISTS_PART (PLAYLISTS_PART @ ds @ rest) = Some (ds @ rest)"
    by (simp add: strip_prefix_Some)
  show "user_match_at isdigit s = Some (owner, ds)"
    unfolding user_match_at_def using sp1 sp2 tw dw twd one dne by (simp add: Let_def)
qed

lemma user_match_at_None:
  "user_match_at isdigit s = None \<longleftrightarrow>
     \<not> (\<exists>owner ds rest. s = USER_PREFIX @ owner @ PLAYLISTS_PART @ ds @ rest \<and> owner \<noteq> []
           \<and> slash \<notin> set owner \<and> ds \<noteq> [] \<and> list_all isdigit ds)"
proof
  assume a: "user_match_at isdigit s = None"
  show "\<not> (\<exists>owner ds rest. s = USER_PREFIX @ owner @ PLAYLISTS_PART @ ds @ rest \<and> owner \<noteq> []
           \<and> slash \<notin> set owner \<and> ds \<noteq> [] \<and> list_all isdigit ds)"
  proof
    assume "\<exists>owner ds rest. s = USER_PREFIX @ owner @ PLAYLISTS_PART @ ds @ rest \<and> owner \<noteq> []
           \<and> slash \<notin> set owner \<and> ds \<noteq> [] \<and> list_all isdigit ds"
    then obtain owner ds rest where s: "s = USER_PREFIX @ owner @ PLAYLISTS_PART @ ds @ rest"
      and one: "owner \<noteq> []" and ok: "slash \<notin> set owner" and dne: "ds \<noteq> []"
      and dd: "list_all isdigit ds" by blast
    let ?ds = "takeWhile isdigit (ds @ rest)"
    let ?rest = "dropWhile isdigit (ds @ rest)"
    have e: "ds @ rest = ?ds @ ?rest" by simp
    have "isdigit (hd ds)" using dne dd by (cases ds) auto
    then have ne: "?ds \<noteq> []" using dne by (cases ds) auto
    have "list_all isdigit ?ds" by (metis list_all_iff set_takeWhileD)
    moreover have "?rest = [] \<or> \<not> isdigit (hd ?rest)" using hd_dropWhile[of isdigit "ds @ rest"] by blast
    moreover have "s = USER_PREFIX @ owner @ PLAYLISTS_PART @ ?ds @ ?rest" using s e by simp
    ultimately have "\<exists>rest'. s = USER_PREFIX @ owner @ PLAYLISTS_PART @ ?ds @ rest' \<and> owner \<noteq> [] \<and> slash \<notin> set owner
        \<and> ?ds \<noteq> [] \<and> list_all isdigit ?ds \<and> (rest' = [] \<or> \<not> isdigit (hd rest'))"
      using one ok ne by blast
    then have "user_match_at isdigit s = Some (owner, ?ds)"
      by (simp only: user_match_at_Some)
    with a show False by simp
  qed
next
  assume n: "\<not> (\<exists>owner ds rest. s = USER_PREFIX @ owner @ PLAYLISTS_PART @ ds @ rest \<and> owner \<noteq> []
           \<and> slash \<notin> set owner \<and> ds \<noteq> [] \<and> list_all isdigit ds)"
  show "user_match_at isdigit s = None"
  proof (cases "user_match_at isdigit s")
    case None
    then show ?thesis .
  next
    case (Some g)
    obtain owner ds where g: "g = (owner, ds)" by (cases g)
    with Some have "\<exists>rest. s = USER_PREFIX @ owner @ PLAYLISTS_PART @ ds @ rest \<and> owner \<noteq> [] \<and> slash \<notin> set owner
        \<and> ds \<noteq> [] \<and> list_all isdigit ds \<and> (rest = [] \<or> \<not> isdigit (hd rest))"
      by (simp only: user_match_at_Some)
    with n show ?thesis by blast
  qed
qed

lemma re_search_uuid_None:
  "re_search uuid_match_at url = None \<longleftrightarrow> \<not> contains_uuid_shape url"
proof -
  have "re_search uuid_match_at url = None \<longleftrightarrow>
          (\<forall>pre suf. url = pre @ suf \<longrightarrow>
             \<not> (\<exists>tok rest. suf = UUID_PREFIX @ tok @ rest \<and> tok \<noteq> [] \<and> slash \<notin> set tok \<and> qmark \<notin> set tok))"
    by (simp only: re_search_None uuid_match_at_None)
  also have "\<dots> \<longleftrightarrow> \<not> contains_uuid_shape url"
    unfolding contains_uuid_shape_def uuid_shape_def by blast
  finally show ?thesis .
qed

lemma re_search_user_None:
  "re_search (user_match_at isdigit) url = None \<longleftrightarrow> \<not> contains_user_shape isdigit url"
proof -
  have "re_search (user_match_at isdigit) url = None \<longleftrightarrow>
          (\<forall>pre suf. url = pre @ suf \<longrightarrow>
             \<not> (\<exists>owner ds rest. suf = USER_PREFIX @ owner @ PLAYLISTS_PART @ ds @ rest \<and> owner \<noteq> []
                   \<and> slash \<notin> set owner \<and> ds \<noteq> [] \<and> list_all isdigit ds))"
    by (simp only: re_search_None user_match_at_None)
  also have "\<dots> \<longleftrightarrow> \<not> contains_user_shape isdigit url"
    unfolding contains_user_shape_def user_shape_def by blast
  finally show ?thesis .
qed

lemma re_search_uuid_Some:
  assumes "re_search uuid_match_at url = Some tok"
  shows "\<exists>pre rest. uuid_shape url pre tok rest
           \<and> (rest = [] \<or> hd rest = slash \<or> hd rest = qmark)
           \<and> (\<forall>pre' tok' rest'. uuid_shape url pre' tok' rest' \<longrightarrow> length pre \<le> length pre')"
proof -
  from re_search_Some[OF assms] obtain pre suf where
    e: "url = pre @ suf" and m: "uuid_match_at suf = Some tok" and
    least: "\<forall>pre' suf'. url = pre' @ suf' \<and> length pre' < length pre \<longrightarrow> uuid_match_at suf' = None"
    by blast
  from m obtain rest where suf: "suf = UUID_PREFIX @ tok @ rest" and ok: "tok \<noteq> []" "slash \<notin> set tok" "qmark \<notin> set tok"
    and mx: "rest = [] \<or> hd rest = slash \<or> hd rest = qmark"
    unfolding uuid_match_at_Some by blast
  have sh: "uuid_shape url pre tok rest" using e suf ok by (simp add: uuid_shape_def)
  have "\<forall>pre' tok' rest'. uuid_shape url pre' tok' rest' \<longrightarrow> length pre \<le> length pre'"
  proof (intro allI impI)
    fix pre' tok' rest' assume a: "uuid_shape url pre' tok' rest'"
    show "length pre \<le> length pre'"
    proof (rule ccontr)
      assume "\<not> length pre \<le> length pre'"
      then have "length pre' < length pre" by simp
      moreover have "url = pre' @ (UUID_PREFIX @ tok' @ rest')" using a by (simp add: uuid_shape_def)
      ultimately have "uuid_match_at (UUID_PREFIX @ tok' @ rest') = None" using least by blast
      then show False using a unfolding uuid_match_at_None uuid_shape_def by blast
    qed
  qed
  with sh mx show ?thesis by blast
qed

lemma re_search_user_Some:
  assumes "re_search (user_match_at isdigit) url = Some (owner, ds)"
  shows "\<exists>pre rest. user_shape isdigit url pre owner ds rest
           \<and> (rest = [] \<or> \<not> isdigit (hd rest))
           \<and> (\<forall>pre' owner' ds' rest'. user_shape isdigit url pre' owner' ds' rest' \<longrightarrow> length pre \<le> length pre')"
proof -
  from re_search_Some[OF assms] obtain pre suf where
    e: "url = pre @ suf" and m: "user_match_at isdigit suf = Some (owner, ds)" and
    least: "\<forall>pre' suf'. url = pre' @ suf' \<and> length pre' < length pre \<longrightarrow> user_match_at isdigit suf' = None"
    by blast
  from m obtain rest where suf: "suf = USER_PREFIX @ owner @ PLAYLISTS_PART @ ds @ rest"
    and ok: "owner \<noteq> []" "slash \<notin> set owner" "ds \<noteq> []" "list_all isdigit ds"
    and mx: "rest = [] \<or> \<not> isdigit (hd rest)"
    unfolding user_match_at_Some by blast
  have sh: "user_shape isdigit url pre owner ds rest" using e suf ok by (simp add: user_shape_def)
  have "\<forall>pre' owner' ds' rest'. user_shape isdigit url pre' owner' ds' rest' \<longrightarrow> length pre \<le> length pre'"
  proof (intro allI impI)
    fix pre' owner' ds' rest' assume a: "user_shape isdigit url pre' owner' ds' rest'"
    show "length pre \<le> length pre'"
    proof (rule ccontr)
      assume "\<not> length pre \<le> length pre'"
      then have "length pre' < length pre" by simp
      moreover have "url = pre' @ (USER_PREFIX @ owner' @ PLAYLISTS_PART @ ds' @ rest')"
        using a by (simp add: user_shape_def)
      ultimately have "user_match_at isdigit (USER_PREFIX @ owner' @ PLAYLISTS_PART @ ds' @ rest') = None"
        using least by blast
      then show False using a unfolding user_match_at_None user_shape_def by blast
    qed
  qed
  with sh mx show ?thesis by blast
qed

text \<open>
  Claim C1. A string that holds \<^verbatim>\<open>music.yandex.ru/playlists/<token>\<close> parses to the
  reference by identifier whose identifier is the token: the token of the leftmost
  occurrence, taken up to the next \<^verbatim>\<open>/\<close> or \<^verbatim>\<open>?\<close> or the end of the string. A string
  without that shape that holds \<^verbatim>\<open>music.yandex.ru/users/<owner>/playlists/<digits>\<close>
  (the owner a non-empty run without \<^verbatim>\<open>/\<close>, one or more decimal digits) parses to the
  reference by owner with that owner and the digits (the whole run of digits of the
  leftmost occurrence). Every other string fails with the \<^verbatim>\<open>ValueError\<close>
  of the parser. The first pattern is tried first.
\<close>

theorem parse_playlist_url_cached_shapes:
  "(contains_uuid_shape url \<longrightarrow>
      (\<exists>pre tok rest. uuid_shape url pre tok rest
         \<and> (rest = [] \<or> hd rest = slash \<or> hd rest = qmark)
         \<and> (\<forall>pre' tok' rest'. uuid_shape url pre' tok' rest' \<longrightarrow> length pre \<le> length pre')
         \<and> parse_playlist_url_cached isdigit url = Inr (Uuid tok)))
   \<and> (\<not> contains_uuid_shape url \<and> contains_user_shape isdigit url \<longrightarrow>
      (\<exists>pre owner ds rest. user_shape isdigit url pre owner ds rest
         \<and> (rest = [] \<or> \<not> isdigit (hd rest))
         \<and> (\<forall>pre' owner' ds' rest'. user_shape isdigit url pre' owner' ds' rest' \<longrightarrow> length pre \<le> length pre')
         \<and> parse_playlist_url_cached isdigit url = Inr (UserKind owner ds)))
   \<and> (\<not> contains_uuid_shape url \<and> \<not> contains_user_shape isdigit url \<longrightarrow>
      parse_playlist_url_cached isdigit url = Inl (ValueError MSG_BAD_FORMAT))"
proof (intro conjI impI)
  assume "contains_uuid_shape url"
  then obtain tok where s: "re_search uuid_match_at url = Some tok"
    using re_search_uuid_None[of url] by (cases "re_search uuid_match_at url") auto
  then have "parse_playlist_url_cached isdigit url = Inr (Uuid tok)"
    by (simp add: parse_playlist_url_cached_def)
  with re_search_uuid_Some[OF s]
  show "\<exists>pre tok rest. uuid_shape url pre tok rest
         \<and> (rest = [] \<or> hd rest = slash \<or> hd rest = qmark)
         \<and> (\<forall>pre' tok' rest'. uuid_shape url pre' tok' rest' \<longrightarrow> length pre \<le> length pre')
         \<and> parse_playlist_url_cached isdigit url = Inr (Uuid tok)"
    by blast
next
  assume a: "\<not> contains_uuid_shape url \<and> contains_user_shape isdigit url"
  then have n: "re_search uuid_match_at url = None" by (simp add: re_search_uuid_None)
  from a obtain g where "re_search (user_match_at isdigit) url = Some g"
    using re_search_user_None[of isdigit url] by (cases "re_search (user_match_at isdigit) url") auto
  then obtain owner ds where s: "re_search (user_match_at isdigit) url = Some (owner, ds)"
    by (cases g) auto
  with n have "parse_playlist_url_cached isdigit url = Inr (UserKind owner ds)"
    by (simp add: parse_playlist_url_cached_def)
  with re_search_user_Some[OF s]
  show "\<exists>pre owner ds rest. user_shape isdigit url pre owner ds rest
         \<and> (rest = [] \<or> \<not> isdigit (hd rest))
         \<and> (\<forall>pre' owner' ds' rest'. user_shape isdigit url pre' owner' ds' rest' \<longrightarrow> length pre \<le> length pre')
         \<and> parse_playlist_url_cached isdigit url = Inr (UserKind owner ds)"
    by blast
next
  assume a: "\<not> contains_uuid_shape url \<and> \<not> contains_user_shape isdigit url"
  then show "parse_playlist_url_cached isdigit url = Inl (ValueError MSG_BAD_FORMAT)"
    by (simp add: parse_playlist_url_cached_def re_search_uuid_None[symmetric] re_search_user_None[symmetric])
qed

theorem parse_playlist_url_cached_shapes_witness:
  "(\<exists>pre tok rest. uuid_shape (ascii ''//music.yandex.ru/playlists/ab?c'') pre tok rest
       \<and> parse_playlist_url_cached (\<lambda>c. 48 \<le> c \<and> c \<le> 57) (ascii ''//music.yandex.ru/playlists/ab?c'')
           = Inr (Uuid tok))
   \<and> parse_playlist_url_cached (\<lambda>c. 48 \<le> c \<and> c \<le> 57) (ascii ''//music.yandex.ru/playlists/ab?c'')
       = Inr (Uuid (ascii ''ab''))
   \<and> (\<exists>pre owner ds rest.
         user_shape (\<lambda>c. 48 \<le> c \<and> c \<le> 57) (ascii ''//music.yandex.ru/users/bob/playlists/1003'') pre owner ds rest
       \<and> parse_playlist_url_cached (\<lambda>c. 48 \<le> c \<and> c \<le> 57) (ascii ''//music.yandex.ru/users/bob/playlists/1003'')
           = Inr (UserKind owner ds))
   \<and> parse_playlist_url_cached (\<lambda>c. 48 \<le> c \<and> c \<le> 57) (ascii ''//music.yandex.ru/users/bob/playlists/1003'')
       = Inr (UserKind (ascii ''bob'') (ascii ''1003''))
   \<and> parse_playlist_url_cached (\<lambda>c. 48 \<le> c \<and> c \<le> 57) (ascii ''//example.org/playlists/7'')
       = Inl (ValueError MSG_BAD_FORMAT)"
proof -
  let ?d = "\<lambda>c::nat. 48 \<le> c \<and> c \<le> 57"
  let ?u1 = "ascii ''//music.yandex.ru/playlists/ab?c''"
  let ?u2 = "ascii ''//music.yandex.ru/users/bob/playlists/1003''"
  let ?u3 = "ascii ''//example.org/playlists/7''"
  have s1: "re_search uuid_match_at ?u1 = Some (ascii ''ab'')"
    by (simp add: uuid_match_at_def UUID_PREFIX_def ascii_def slash_def qmark_def)
  have s2: "re_search uuid_match_at ?u2 = None"
    by (simp add: uuid_match_at_def UUID_PREFIX_def ascii_def slash_def qmark_def)
  have s2': "re_search (user_match_at ?d) ?u2 = Some (ascii ''bob'', ascii ''1003'')"
    by (simp add: user_match_at_def USER_PREFIX_def PLAYLISTS_PART_def ascii_def slash_def)
  have s3: "re_search uuid_match_at ?u3 = None"
    by (simp add: uuid_match_at_def UUID_PREFIX_def ascii_def slash_def qmark_def)
  have s3': "re_search (user_match_at ?d) ?u3 = None"
    by (simp add: user_match_at_def USER_PREFIX_def PLAYLISTS_PART_def ascii_def slash_def)
  have h1: "contains_uuid_shape ?u1"
    using s1 re_search_uuid_None[of ?u1] by simp
  have h2: "\<not> contains_uuid_shape ?u2 \<and> contains_user_shape ?d ?u2"
    using s2 s2' re_search_uuid_None[of ?u2] re_search_user_None[of ?d ?u2] by simp
  have h3: "\<not> contains_uuid_shape ?u3 \<and> \<not> contains_user_shape ?d ?u3"
    using s3 s3' re_search_uuid_None[of ?u3] re_search_user_None[of ?d ?u3] by simp
  have c1: "\<exists>pre tok rest. uuid_shape ?u1 pre tok rest \<and> parse_playlist_url_cached ?d ?u1 = Inr (Uuid tok)"
    using parse_playlist_url_cached_shapes[of ?u1 ?d] h1 by blast
  have c2: "\<exists>pre owner ds rest. user_shape ?d ?u2 pre owner ds rest
              \<and> parse_playlist_url_cached ?d ?u2 = Inr (UserKind owner ds)"
    using parse_playlist_url_cached_shapes[of ?u2 ?d] h2 by blast
  have c3: "parse_playlist_url_cached ?d ?u3 = Inl (ValueError MSG_BAD_FORMAT)"
    using parse_playlist_url_cached_shapes[of ?u3 ?d] h3 by blast
  have v1: "parse_playlist_url_cached ?d ?u1 = Inr (Uuid (ascii ''ab''))"
    using s1 by (simp add: parse_playlist_url_cached_def)
  have v2: "parse_playlist_url_cached ?d ?u2 = Inr (UserKind (ascii ''bob'') (ascii ''1003''))"
    using s2 s2' by (simp add: parse_playlist_url_cached_def)
  from c1 v1 c2 v2 c3 show ?thesis by blast
qed

section \<open>Properties of the retry decorator\<close>

lemma sleeps_complete_iff:
  "sleeps_complete c d j \<longleftrightarrow> (\<forall>k<j. time_sleep c (mul c d (k + 1)) = None)"
  by (auto simp: sleeps_complete_def list_all_iff)

lemma retry_loop_success:
  "j < nat N \<Longrightarrow> a \<le> j \<Longrightarrow> (\<forall>i. a \<le> i \<and> i < j \<longrightarrow> (\<exists>e. func i = Inl e))
     \<Longrightarrow> (\<forall>i. a \<le> i \<and> i < j \<longrightarrow> time_sleep c (mul c d (i + 1)) = None)
     \<Longrightarrow> func j = Inr v
     \<Longrightarrow> retry_loop c N d func [a ..< nat N]
           = (Inr (Some v), concat (map (\<lambda>k. [Call k, Sleep (mul c d (k + 1))]) [a ..< j]) @ [Call j])"
proof (induction "j - a" arbitrary: a)
  case 0
  then have aj: "a = j" by simp
  have "[a ..< nat N] = j # [Suc j ..< nat N]" using 0 aj by (simp add: upt_conv_Cons)
  then show ?case using 0 aj by simp
next
  case (Suc m)
  then have lt: "a < j" by simp
  then have an: "a < nat N" using Suc.prems by simp
  have up: "[a ..< nat N] = a # [Suc a ..< nat N]" using an by (simp add: upt_conv_Cons)
  have up2: "[a ..< j] = a # [Suc a ..< j]" using lt by (simp add: upt_conv_Cons)
  obtain e where fa: "func a = Inl e" using Suc.prems lt by blast
  have notlast: "int a \<noteq> N - 1" using lt Suc.prems by linarith
  have slept: "time_sleep c (mul c d (Suc a)) = None" using Suc.prems(4) lt by simp
  have IH: "retry_loop c N d func [Suc a ..< nat N]
           = (Inr (Some v), concat (map (\<lambda>k. [Call k, Sleep (mul c d (k + 1))]) [Suc a ..< j]) @ [Call j])"
  proof (rule Suc.hyps(1))
    show "m = j - Suc a" using Suc.hyps(2) by simp
    show "j < nat N" by (rule Suc.prems(1))
    show "Suc a \<le> j" using lt by simp
    show "\<forall>i. Suc a \<le> i \<and> i < j \<longrightarrow> (\<exists>e. func i = Inl e)" using Suc.prems(3) by simp
    show "\<forall>i. Suc a \<le> i \<and> i < j \<longrightarrow> time_sleep c (mul c d (i + 1)) = None"
      using Suc.prems(4) by simp
    show "func j = Inr v" by (rule Suc.prems(5))
  qed
  show ?case
    unfolding up up2 using fa notlast slept IH by (simp add: Let_def)
qed

lemma retry_loop_exhausted:
  "a < nat N \<Longrightarrow> (\<forall>i. a \<le> i \<and> i < nat N \<longrightarrow> (\<exists>e. func i = Inl e))
     \<Longrightarrow> (\<forall>i. a \<le> i \<and> i < nat N - 1 \<longrightarrow> time_sleep c (mul c d (i + 1)) = None)
     \<Longrightarrow> func (nat N - 1) = Inl e
     \<Longrightarrow> retry_loop c N d func [a ..< nat N]
           = (Inl e, concat (map (\<lambda>k. [Call k, Sleep (mul c d (k + 1))]) [a ..< nat N - 1])
                       @ [Call (nat N - 1)])"
proof (induction "nat N - 1 - a" arbitrary: a)
  case 0
  then have al: "a = nat N - 1" by simp
  have up: "[a ..< nat N] = [a]" using 0 al by (simp add: upt_conv_Cons)
  have il: "int a = N - 1" using al 0 by linarith
  show ?case unfolding up using al il 0 by simp
next
  case (Suc m)
  then have lt: "a < nat N - 1" by simp
  have up: "[a ..< nat N] = a # [Suc a ..< nat N]" using Suc.prems by (simp add: upt_conv_Cons)
  have up2: "[a ..< nat N - 1] = a # [Suc a ..< nat N - 1]" using lt by (simp add: upt_conv_Cons)
  obtain e' where fa: "func a = Inl e'" using Suc.prems by blast
  have notlast: "int a \<noteq> N - 1" using lt by linarith
  have slept: "time_sleep c (mul c d (Suc a)) = None" using Suc.prems(3) lt by simp
  have IH: "retry_loop c N d func [Suc a ..< nat N]
           = (Inl e, concat (map (\<lambda>k. [Call k, Sleep (mul c d (k + 1))]) [Suc a ..< nat N - 1])
                       @ [Call (nat N - 1)])"
  proof (rule Suc.hyps(1))
    show "m = nat N - 1 - Suc a" using Suc.hyps(2) by simp
    show "Suc a < nat N" using lt by simp
    show "\<forall>i. Suc a \<le> i \<and> i < nat N \<longrightarrow> (\<exists>e. func i = Inl e)" using Suc.prems(2) by simp
    show "\<forall>i. Suc a \<le> i \<and> i < nat N - 1 \<longrightarrow> time_sleep c (mul c d (i + 1)) = None"
      using Suc.prems(3) by simp
    show "func (nat N - 1) = Inl e" by (rule Suc.prems(4))
  qed
  show ?case
    unfolding up up2 using fa notlast slept IH by (simp add: Let_def)
qed

lemma retry_loop_all_fail:
  "a < nat N \<Longrightarrow> (\<forall>i. a \<le> i \<and> i < nat N \<longrightarrow> (\<exists>e. func i = Inl e))
     \<Longrightarrow> \<exists>e evs. retry_loop c N d func [a ..< nat N] = (Inl e, evs)"
proof (induction "nat N - 1 - a" arbitrary: a)
  case 0
  then have al: "a = nat N - 1" by simp
  have up: "[a ..< nat N] = [a]" using 0 al by (simp add: upt_conv_Cons)
  have il: "int a = N - 1" using al 0 by linarith
  obtain e where "func a = Inl e" using 0 by blast
  then show ?case unfolding up using il by simp
next
  case (Suc m)
  then have lt: "a < nat N - 1" by simp
  have up: "[a ..< nat N] = a # [Suc a ..< nat N]" using Suc.prems by (simp add: upt_conv_Cons)
  obtain e' where fa: "func a = Inl e'" using Suc.prems by blast
  have notlast: "int a \<noteq> N - 1" using lt by linarith
  have IH: "\<exists>e evs. retry_loop c N d func [Suc a ..< nat N] = (Inl e, evs)"
  proof (rule Suc.hyps(1))
    show "m = nat N - 1 - Suc a" using Suc.hyps(2) by simp
    show "Suc a < nat N" using lt by simp
    show "\<forall>i. Suc a \<le> i \<and> i < nat N \<longrightarrow> (\<exists>e. func i = Inl e)" using Suc.prems(2) by simp
  qed
  then obtain e evs where r: "retry_loop c N d func [Suc a ..< nat N] = (Inl e, evs)" by blast
  show ?case
  proof (cases "time_sleep c (mul c d (Suc a))")
    case None
    then show ?thesis unfolding up using fa notlast r by (simp add: Let_def)
  next
    case (Some e'')
    then show ?thesis unfolding up using fa notlast by (simp add: Let_def)
  qed
qed

text \<open>
  Claim C5, amended. For every callable, every maximum number of attempts \<open>N \<ge> 1\<close> and every
  base delay \<open>d\<close>: as long as \<^verbatim>\<open>time.sleep\<close> accepts the lengths it is given, the wrapper
  returns the value of the first invocation that succeeds; before it, the \<open>k\<close>-th failed
  attempt (counted from 1) is followed by a sleep of \<open>d * k\<close>; and when all \<open>N\<close> attempts
  raise, the exception of the last attempt reaches the caller, with no sleep after it.
\<close>

theorem retry_on_error_linear_backoff:
  assumes "1 \<le> N"
  shows "(\<forall>j v. j < nat N \<and> (\<forall>i<j. \<exists>e. func i = Inl e) \<and> func j = Inr v
                 \<and> sleeps_complete c d j
            \<longrightarrow> retry_on_error c N d func = (Inr (Some v), backoff_trace c d j))
       \<and> (\<forall>e. (\<forall>i < nat N. \<exists>e'. func i = Inl e') \<and> func (nat N - 1) = Inl e
               \<and> sleeps_complete c d (nat N - 1)
            \<longrightarrow> retry_on_error c N d func = (Inl e, backoff_trace c d (nat N - 1)))"
proof (intro conjI allI impI)
  fix j v
  assume a: "j < nat N \<and> (\<forall>i<j. \<exists>e. func i = Inl e) \<and> func j = Inr v \<and> sleeps_complete c d j"
  then have f: "\<forall>i. 0 \<le> i \<and> i < j \<longrightarrow> (\<exists>e. func i = Inl e)" by simp
  from a have sl: "\<forall>i. 0 \<le> i \<and> i < j \<longrightarrow> time_sleep c (mul c d (i + 1)) = None"
    by (simp add: sleeps_complete_iff)
  from a f sl show "retry_on_error c N d func = (Inr (Some v), backoff_trace c d j)"
    unfolding retry_on_error_def backoff_trace_def
    by (intro retry_loop_success) simp_all
next
  fix e
  assume a: "(\<forall>i < nat N. \<exists>e'. func i = Inl e') \<and> func (nat N - 1) = Inl e
               \<and> sleeps_complete c d (nat N - 1)"
  have n: "0 < nat N" using assms by simp
  have f: "\<forall>i. 0 \<le> i \<and> i < nat N \<longrightarrow> (\<exists>e. func i = Inl e)" using a by simp
  from a have sl: "\<forall>i. 0 \<le> i \<and> i < nat N - 1 \<longrightarrow> time_sleep c (mul c d (i + 1)) = None"
    by (simp add: sleeps_complete_iff)
  from n f sl a show "retry_on_error c N d func = (Inl e, backoff_trace c d (nat N - 1))"
    unfolding retry_on_error_def backoff_trace_def
    by (intro retry_loop_exhausted) simp_all
qed

theorem retry_on_error_linear_backoff_witness:
  "sleeps_complete example_clock (1 / 2) 2
   \<and> retry_on_error example_clock 3 (1 / 2) (\<lambda>k. if k < 2 then Inl (ValueError []) else Inr (7::nat))
       = (Inr (Some 7), [Call 0, Sleep (1 / 2), Call 1, Sleep 1, Call 2])
   \<and> retry_on_error example_clock 3 (1 / 2) (\<lambda>k. (Inl (ValueError [k]) :: exn + nat))
       = (Inl (ValueError [2]), [Call 0, Sleep (1 / 2), Call 1, Sleep 1, Call 2])"
proof -
  let ?f = "\<lambda>k::nat. if k < 2 then Inl (ValueError []) else (Inr (7::nat) :: exn + nat)"
  let ?g = "\<lambda>k::nat. (Inl (ValueError [k]) :: exn + nat)"
  have t: "backoff_trace example_clock (1 / 2) 2 = [Call 0, Sleep (1 / 2), Call 1, Sleep 1, Call 2]"
    by (simp add: backoff_trace_def example_clock_def upt_conv_Cons)
  have sc: "sleeps_complete example_clock (1 / 2) 2"
    by (simp add: sleeps_complete_def example_clock_def upt_conv_Cons)
  have p1: "(1::int) \<le> 3" by simp
  have "(2::nat) < nat 3 \<and> (\<forall>i<2. \<exists>e. ?f i = Inl e) \<and> ?f 2 = Inr 7
          \<and> sleeps_complete example_clock (1 / 2) 2" using sc by simp
  then have a: "retry_on_error example_clock 3 (1 / 2) ?f
                  = (Inr (Some 7), backoff_trace example_clock (1 / 2) 2)"
    using retry_on_error_linear_backoff[OF p1, where c = example_clock and d = "1 / 2" and func = ?f]
    by blast
  have "(\<forall>i < nat 3. \<exists>e'. ?g i = Inl e') \<and> ?g (nat 3 - 1) = Inl (ValueError [2])
          \<and> sleeps_complete example_clock (1 / 2) (nat 3 - 1)" using sc by simp
  then have b: "retry_on_error example_clock 3 (1 / 2) ?g
                  = (Inl (ValueError [2]), backoff_trace example_clock (1 / 2) (nat 3 - 1))"
    using retry_on_error_linear_backoff[OF p1, where c = example_clock and d = "1 / 2" and func = ?g]
    by blast
  from a b t sc show ?thesis by simp
qed

text \<open>
  The claim as first stated holds for every base delay. With the delay -1 the first
  failed attempt is followed by \<^verbatim>\<open>time.sleep(-1)\<close>, which raises: that \<^verbatim>\<open>ValueError\<close> leaves
  the wrapper after one invocation; nothing is slept, no second attempt is made and the
  exception of the last attempt is not what the caller gets.
\<close>

theorem retry_on_error_negative_delay:
  "retry_on_error example_clock 3 (- 1) (\<lambda>k. (Inl (ValueError [k]) :: exn + nat))
     = (Inl (ValueError (ascii ''sleep length must be non-negative'')), [Call 0])
   \<and> backoff_trace example_clock (- 1) 2 = [Call 0, Sleep (- 1), Call 1, Sleep (- 2), Call 2]"
  by (simp add: retry_on_error_def example_clock_def backoff_trace_def upt_conv_Cons)

section \<open>The retry policy of get\_track\_info\<close>

lemma retry_on_error_first_success:
  "0 < N \<Longrightarrow> func 0 = Inr v \<Longrightarrow> retry_on_error c N d func = (Inr (Some v), [Call 0])"
proof -
  assume a: "0 < N" "func 0 = Inr v"
  then have "[0 ..< nat N] = 0 # [Suc 0 ..< nat N]" by (simp add: upt_conv_Cons)
  then show ?thesis using a by (simp add: retry_on_error_def)
qed

lemma get_track_info_undecorated_returns:
  "\<exists>r. get_track_info_undecorated t = Inr r"
  by (cases "get_track_info_try t") (simp_all add: get_track_info_undecorated_def try_except_def)

lemma get_track_info_once:
  "get_track_info_undecorated t = Inr r \<Longrightarrow> get_track_info c t = (Inr r, [Call 0])"
proof -
  assume a: "get_track_info_undecorated t = Inr r"
  have "retry_on_error c 3 (1 / 2) (\<lambda>attempt. get_track_info_undecorated t)
          = (Inr (Some r), [Call 0])"
    by (rule retry_on_error_first_success) (simp_all add: a)
  then show ?thesis by (simp add: get_track_info_def)
qed

text \<open>
  Claim C9. The body of \<^verbatim>\<open>get_track_info\<close> turns every exception into the return value
  \<^verbatim>\<open>None\<close>, so the decorated method returns what its body returns after exactly one
  invocation, without a sleep and without raising: the retry policy never acts.
\<close>

theorem get_track_info_single_attempt:
  "(\<forall>e. get_track_info_try t = Inl e \<longrightarrow> get_track_info_undecorated t = Inr None)
   \<and> (\<exists>r. get_track_info_undecorated t = Inr r \<and> get_track_info c t = (Inr r, [Call 0]))"
proof
  show "\<forall>e. get_track_info_try t = Inl e \<longrightarrow> get_track_info_undecorated t = Inr None"
    by (simp add: get_track_info_undecorated_def try_except_def)
next
  from get_track_info_undecorated_returns obtain r where r: "get_track_info_undecorated t = Inr r"
    by blast
  with get_track_info_once[OF r]
  show "\<exists>r. get_track_info_undecorated t = Inr r \<and> get_track_info c t = (Inr r, [Call 0])"
    by blast
qed

theorem get_track_info_single_attempt_witness:
  "(\<exists>e. get_track_info_try
          \<lparr>title = None, track = None, artists = None, artists_name = Some (Val [PNone]),
           albums = None, album_id = None, id_attr = Some (PInt 5), track_id = None,
           fetch_track = None\<rparr> = Inl e)
   \<and> get_track_info example_clock
          \<lparr>title = None, track = None, artists = None, artists_name = Some (Val [PNone]),
           albums = None, album_id = None, id_attr = Some (PInt 5), track_id = None,
           fetch_track = None\<rparr> = (Inr None, [Call 0])"
proof -
  let ?t = "\<lparr>title = None, track = None, artists = None, artists_name = Some (Val [PNone]),
           albums = None, album_id = None, id_attr = Some (PInt 5), track_id = None,
           fetch_track = None\<rparr>"
  have d5: "digits 5 \<noteq> []" by (simp add: digits.simps[of 5])
  have tr: "\<exists>e. get_track_info_try ?t = Inl e"
    using d5 by (simp add: get_track_info_try_def get_track_id_def str_int_def fetched_def
        fields.truncate_def resolve_title_def resolve_artists_def join_def)
  then obtain e where e: "get_track_info_try ?t = Inl e" by blast
  from get_track_info_single_attempt[where t = ?t] e
  have u: "get_track_info_undecorated ?t = Inr None" by blast
  from get_track_info_single_attempt[where t = ?t and c = example_clock] u
  have "get_track_info example_clock ?t = (Inr None, [Call 0])" by auto
  with tr show ?thesis by blast
qed

section \<open>Properties of process\_playlist\<close>

lemma digits_not_empty: "digits n \<noteq> []"
  by (subst digits.simps) simp

lemma str_int_not_empty: "str_int n \<noteq> []"
  by (simp add: str_int_def digits_not_empty)

lemma truthy_py_str_not_empty: "truthy v \<Longrightarrow> py_str v \<noteq> []"
  by (cases v) (simp_all add: str_int_not_empty)

lemma truthy_attr_Some: "truthy_attr a = Some v \<Longrightarrow> truthy v"
  by (cases a) (auto split: if_splits)

lemma get_track_id_not_empty: "get_track_id t = Some k \<Longrightarrow> k \<noteq> []"
  by (auto simp: get_track_id_def truthy_py_str_not_empty dest!: truthy_attr_Some split: option.splits)

lemma map_of_dict_set: "map_of (dict_set d k v) = (map_of d)(k \<mapsto> v)"
  by (induction d) auto

lemma keys_dict_set: "set (map fst (dict_set d k v)) = insert k (set (map fst d))"
proof (induction d)
  case Nil
  then show ?case by simp
next
  case (Cons p d)
  obtain k' v' where p: "p = (k', v')" by (cases p)
  show ?case
  proof (cases "k' = k")
    case True
    with p show ?thesis by simp
  next
    case False
    with p Cons.IH show ?thesis by (simp add: insert_commute)
  qed
qed

lemma distinct_dict_set: "distinct (map fst d) \<Longrightarrow> distinct (map fst (dict_set d k v))"
proof (induction d)
  case Nil
  then show ?case by simp
next
  case (Cons p d)
  obtain k' v' where p: "p = (k', v')" by (cases p)
  show ?case
  proof (cases "k' = k")
    case True
    with Cons.prems p show ?thesis by simp
  next
    case False
    have "k' \<notin> set (map fst (dict_set d k v))"
      using Cons.prems p False by (simp only: keys_dict_set) auto
    with Cons p False show ?thesis by simp
  qed
qed

lemma distinct_fill_tracks_dict:
  "distinct (map fst d) \<Longrightarrow> distinct (map fst (fill_tracks_dict entries d))"
  by (induction entries arbitrary: d) (auto simp: distinct_dict_set split: option.splits)

lemma last_with_id_Cons:
  "last_with_id (t # entries) k =
     (case last_with_id entries k of
        Some t' \<Rightarrow> Some t'
      | None \<Rightarrow> if get_track_id t = Some k then Some t else None)"
  by (auto simp: last_with_id_def split: list.splits)

lemma map_of_fill_tracks_dict:
  "map_of (fill_tracks_dict entries d) k =
     (case last_with_id entries k of Some t \<Rightarrow> Some t | None \<Rightarrow> map_of d k)"
proof (induction entries arbitrary: d)
  case Nil
  then show ?case by (simp add: last_with_id_def)
next
  case (Cons t entries)
  show ?case
  proof (cases "get_track_id t")
    case None
    then show ?thesis by (simp add: Cons.IH last_with_id_Cons split: option.splits)
  next
    case (Some tid)
    then have "tid \<noteq> []" by (rule get_track_id_not_empty)
    with Some show ?thesis
      by (auto simp: Cons.IH last_with_id_Cons map_of_dict_set split: option.splits)
  qed
qed

lemma last_with_id_Some:
  "last_with_id entries k = Some t \<Longrightarrow> t \<in> set entries \<and> get_track_id t = Some k"
proof -
  assume a: "last_with_id entries k = Some t"
  let ?f = "filter (\<lambda>t. get_track_id t = Some k) entries"
  from a have ne: "?f \<noteq> []" and l: "t = last ?f"
    by (auto simp: last_with_id_def split: list.splits)
  then have "t \<in> set ?f" using last_in_set by blast
  then show ?thesis by simp
qed

lemma last_with_id_None:
  "last_with_id entries k = None \<longleftrightarrow> (\<forall>t\<in>set entries. get_track_id t \<noteq> Some k)"
proof -
  have "last_with_id entries k = None \<longleftrightarrow> filter (\<lambda>t. get_track_id t = Some k) entries = []"
    by (simp add: last_with_id_def split: list.splits)
  then show ?thesis by (simp add: filter_empty_conv)
qed

lemma process_playlist_fetched:
  "fetch_playlist w playlist_info = Inr (Val entries) \<Longrightarrow>
     process_playlist w playlist_info = Inr (fill_tracks_dict entries [])"
  by (simp add: process_playlist_def and_then_def)

lemma fetch_playlist_example:
  "fetch_playlist (example_world playlists swapped) (UserKind user kind) = Inr (Val (playlists kind))"
proof -
  have "get_tracks_undecorated (example_world playlists swapped) 0 user kind = Inr (Val (playlists kind))"
    by (simp add: get_tracks_undecorated_def get_tracks_try_def example_world_def and_then_def
        try_except_def)
  then have "get_tracks (example_world playlists swapped) user kind
               = (Inr (Some (Val (playlists kind))), [Call 0])"
    unfolding get_tracks_def by (intro retry_on_error_first_success) simp_all
  then show ?thesis by (simp add: fetch_playlist_def and_then_def)
qed

lemma get_track_id_example: "get_track_id (example_entry 5 s) = Some (ascii ''5'')"
  by (simp add: get_track_id_def example_entry_def str_int_def digits.simps[of 5] ascii_def)

text \<open>
  Claim C7. For every sequence of raw entries that the fetcher returns, the dictionary
  built by \<^verbatim>\<open>process_playlist\<close> has no duplicate keys; an entry whose identifier
  extraction yields nothing is not in it; its keys are the identifiers extracted from the
  entries; and each key is bound to the last entry of the sequence that carries it.
\<close>

theorem process_playlist_last_seen_wins:
  assumes "fetch_playlist w playlist_info = Inr (Val entries)"
  shows "\<exists>d. process_playlist w playlist_info = Inr d
           \<and> distinct (map fst d)
           \<and> (\<forall>k. map_of d k = last_with_id entries k)
           \<and> (\<forall>t\<in>set entries. get_track_id t = None \<longrightarrow> t \<notin> snd ` set d)
           \<and> (\<forall>k t. (k, t) \<in> set d \<longrightarrow> t \<in> set entries \<and> get_track_id t = Some k)
           \<and> fst ` set d = {k. \<exists>t\<in>set entries. get_track_id t = Some k}"
proof -
  let ?d = "fill_tracks_dict entries []"
  have p: "process_playlist w playlist_info = Inr ?d"
    using assms by (rule process_playlist_fetched)
  have dist: "distinct (map fst ?d)" by (rule distinct_fill_tracks_dict) simp
  have m: "\<forall>k. map_of ?d k = last_with_id entries k"
    by (simp add: map_of_fill_tracks_dict split: option.splits)
  have mem: "\<forall>k t. (k, t) \<in> set ?d \<longrightarrow> t \<in> set entries \<and> get_track_id t = Some k"
  proof (intro allI impI)
    fix k t assume "(k, t) \<in> set ?d"
    with dist have "map_of ?d k = Some t" by simp
    with m have "last_with_id entries k = Some t" by simp
    then show "t \<in> set entries \<and> get_track_id t = Some k" by (rule last_with_id_Some)
  qed
  have excl: "\<forall>t\<in>set entries. get_track_id t = None \<longrightarrow> t \<notin> snd ` set ?d"
  proof (intro ballI impI)
    fix t assume "t \<in> set entries" and n: "get_track_id t = None"
    show "t \<notin> snd ` set ?d"
    proof
      assume "t \<in> snd ` set ?d"
      then obtain k where "(k, t) \<in> set ?d" by force
      with mem have "get_track_id t = Some k" by blast
      with n show False by simp
    qed
  qed
  have keys: "fst ` set ?d = {k. \<exists>t\<in>set entries. get_track_id t = Some k}"
  proof (rule set_eqI)
    fix k
    have "k \<in> fst ` set ?d \<longleftrightarrow> map_of ?d k \<noteq> None"
      by (simp add: map_of_eq_None_iff)
    also have "\<dots> \<longleftrightarrow> last_with_id entries k \<noteq> None" using m by simp
    also have "\<dots> \<longleftrightarrow> (\<exists>t\<in>set entries. get_track_id t = Some k)"
      by (simp add: last_with_id_None)
    finally show "k \<in> fst ` set ?d \<longleftrightarrow> k \<in> {k. \<exists>t\<in>set entries. get_track_id t = Some k}"
      by simp
  qed
  from p dist m excl mem keys show ?thesis by blast
qed

theorem process_playlist_last_seen_wins_witness:
  "fetch_playlist (example_world (\<lambda>kind. [example_entry 5 ''A'', example_entry 0 ''N'', example_entry 5 ''B'']) False)
      (UserKind (ascii ''bob'') (ascii ''1''))
     = Inr (Val [example_entry 5 ''A'', example_entry 0 ''N'', example_entry 5 ''B''])
   \<and> (\<exists>d. process_playlist (example_world (\<lambda>kind. [example_entry 5 ''A'', example_entry 0 ''N'', example_entry 5 ''B'']) False)
             (UserKind (ascii ''bob'') (ascii ''1'')) = Inr d
          \<and> distinct (map fst d)
          \<and> map_of d (ascii ''5'') = Some (example_entry 5 ''B'')
          \<and> example_entry 0 ''N'' \<notin> snd ` set d)"
proof -
  let ?es = "[example_entry 5 ''A'', example_entry 0 ''N'', example_entry 5 ''B'']"
  let ?w = "example_world (\<lambda>kind. ?es) False"
  let ?i = "UserKind (ascii ''bob'') (ascii ''1'')"
  have f: "fetch_playlist ?w ?i = Inr (Val ?es)" by (rule fetch_playlist_example)
  have n: "get_track_id (example_entry 0 ''N'') = None"
    by (simp add: get_track_id_def example_entry_def)
  have l: "last_with_id ?es (ascii ''5'') = Some (example_entry 5 ''B'')"
    by (simp add: last_with_id_def get_track_id_example n)
  from process_playlist_last_seen_wins[OF f] obtain d where
    d: "process_playlist ?w ?i = Inr d" "distinct (map fst d)"
       "\<forall>k. map_of d k = last_with_id ?es k"
       "\<forall>t\<in>set ?es. get_track_id t = None \<longrightarrow> t \<notin> snd ` set d"
    by blast
  from d(3) l have "map_of d (ascii ''5'') = Some (example_entry 5 ''B'')" by simp
  moreover from d(4) n have "example_entry 0 ''N'' \<notin> snd ` set d" by simp
  ultimately show ?thesis using f d(1) d(2) by blast
qed

section \<open>Fallbacks of get\_track\_info\<close>

lemma truthy_list_Some: "truthy_list a = Some xs \<Longrightarrow> xs \<noteq> []"
  by (cases a rule: truthy_list.cases) (auto split: if_splits)

lemma first_album_id_returns: "xs \<noteq> [] \<Longrightarrow> \<exists>v. first_album_id xs = Inr v"
  by (cases xs) (simp_all add: first_album_id_def)

lemma resolve_album_id_returns: "\<exists>v. resolve_album_id f = Inr v"
  unfolding resolve_album_id_def
  by (auto split: option.splits dest!: truthy_list_Some intro: first_album_id_returns)

lemma resolve_title_fallback: "no_display_fields f \<Longrightarrow> resolve_title f = PStr UNKNOWN_TRACK"
  by (auto simp: no_display_fields_def resolve_title_def split: option.splits)

lemma resolve_artists_fallback: "no_display_fields f \<Longrightarrow> resolve_artists f = Inr []"
  by (auto simp: no_display_fields_def resolve_artists_def split: option.splits)

text \<open>
  Claim C6, amended. For every entry with a resolvable identifier, when the object that
  the fields are read from (the full track that \<^verbatim>\<open>entry.fetch_track()\<close> returns when the
  entry has that capability and the call succeeds, the entry itself otherwise) has no
  title field and no artist field in any of the recognised shapes, \<^verbatim>\<open>get_track_info\<close>
  returns a record with the fallback title and the fallback artists, and neither fails
  nor returns \<^verbatim>\<open>None\<close>.
\<close>

theorem get_track_info_fallbacks:
  assumes "get_track_id t = Some tid" and "no_display_fields (fetched t)"
  shows "\<exists>i. get_track_info c t = (Inr (Some i), [Call 0]) \<and> info_id i = tid
           \<and> info_title i = PStr UNKNOWN_TRACK \<and> info_artists i = UNKNOWN_ARTIST"
proof -
  from resolve_album_id_returns obtain aid where aid: "resolve_album_id (fetched t) = Inr aid"
    by blast
  have ne: "tid \<noteq> []" using assms(1) by (rule get_track_id_not_empty)
  let ?i = "\<lparr>info_id = tid, info_title = PStr UNKNOWN_TRACK, info_artists = UNKNOWN_ARTIST,
             info_url = track_url aid tid\<rparr>"
  have "get_track_info_try t = Inr (Some ?i)"
    using assms(1) ne aid resolve_title_fallback[OF assms(2)] resolve_artists_fallback[OF assms(2)]
    by (simp add: get_track_info_try_def Let_def)
  then have "get_track_info_undecorated t = Inr (Some ?i)"
    by (simp add: get_track_info_undecorated_def try_except_def)
  then have "get_track_info c t = (Inr (Some ?i), [Call 0])" by (rule get_track_info_once)
  then show ?thesis by simp
qed

theorem get_track_info_fallbacks_witness:
  "get_track_id (short_entry\<lparr>fetch_track := Some (Inl (OtherException []))\<rparr>) = Some (ascii ''5'')
   \<and> no_display_fields (fetched (short_entry\<lparr>fetch_track := Some (Inl (OtherException []))\<rparr>))
   \<and> (\<exists>i. get_track_info example_clock
             (short_entry\<lparr>fetch_track := Some (Inl (OtherException []))\<rparr>)
             = (Inr (Some i), [Call 0])
          \<and> info_id i = ascii ''5''
          \<and> info_title i = PStr UNKNOWN_TRACK \<and> info_artists i = UNKNOWN_ARTIST)"
proof -
  let ?t = "short_entry\<lparr>fetch_track := Some (Inl (OtherException []))\<rparr>"
  have a: "get_track_id ?t = Some (ascii ''5'')"
    by (simp add: get_track_id_def short_entry_def str_int_def digits.simps[of 5] ascii_def)
  have b: "no_display_fields (fetched ?t)"
    by (simp add: no_display_fields_def fetched_def short_entry_def fields.truncate_def)
  from get_track_info_fallbacks[OF a b, where c = example_clock] a b show ?thesis by blast
qed

text \<open>
  The claim as first stated reads the fields of the entry itself. An entry without any
  title or artist field whose \<^verbatim>\<open>fetch_track\<close> returns a full track gets the title and
  the artists of that track, not the fallbacks.
\<close>

theorem get_track_info_fetched_title:
  "get_track_id short_entry = Some (ascii ''5'')
   \<and> no_display_fields (fields.truncate short_entry)
   \<and> get_track_info example_clock short_entry
       = (Inr (Some \<lparr>info_id = ascii ''5'', info_title = PStr (ascii ''Song''),
                     info_artists = ascii ''Band'',
                     info_url = ascii ''https://music.yandex.ru/track/5''\<rparr>), [Call 0])
   \<and> PStr (ascii ''Song'') \<noteq> PStr UNKNOWN_TRACK
   \<and> ascii ''Band'' \<noteq> UNKNOWN_ARTIST"
proof -
  have a: "get_track_id short_entry = Some (ascii ''5'')"
    by (simp add: get_track_id_def short_entry_def str_int_def digits.simps[of 5] ascii_def)
  have b: "no_display_fields (fields.truncate short_entry)"
    by (simp add: no_display_fields_def short_entry_def fields.truncate_def)
  have "get_track_info_try short_entry
       = Inr (Some \<lparr>info_id = ascii ''5'', info_title = PStr (ascii ''Song''),
                     info_artists = ascii ''Band'',
                     info_url = ascii ''https://music.yandex.ru/track/5''\<rparr>)"
    using a by (simp add: get_track_info_try_def Let_def fetched_def short_entry_def
        resolve_title_def resolve_artists_def resolve_album_id_def artist_names_def join_def
        track_url_def UNKNOWN_TRACK_def ascii_def)
  then have "get_track_info_undecorated short_entry
       = Inr (Some \<lparr>info_id = ascii ''5'', info_title = PStr (ascii ''Song''),
                     info_artists = ascii ''Band'',
                     info_url = ascii ''https://music.yandex.ru/track/5''\<rparr>)"
    by (simp add: get_track_info_undecorated_def try_except_def)
  then have c: "get_track_info example_clock short_entry
       = (Inr (Some \<lparr>info_id = ascii ''5'', info_title = PStr (ascii ''Song''),
                     info_artists = ascii ''Band'',
                     info_url = ascii ''https://music.yandex.ru/track/5''\<rparr>), [Call 0])"
    by (rule get_track_info_once)
  have d: "PStr (ascii ''Song'') \<noteq> PStr UNKNOWN_TRACK \<and> ascii ''Band'' \<noteq> UNKNOWN_ARTIST"
    by (simp add: UNKNOWN_TRACK_def UNKNOWN_ARTIST_def ascii_def)
  from a b c d show ?thesis by blast
qed

section \<open>The missing credential\<close>

lemma get_tracks_by_uuid_try_no_token:
  "environ w (ascii ''YANDEX_OAUTH_TOKEN'') = None \<Longrightarrow>
     get_tracks_by_uuid_try w u = (Inl (ValueError MSG_NO_TOKEN), [])"
  by (simp add: get_tracks_by_uuid_try_def)

lemma get_tracks_by_uuid_no_token_miss:
  "environ w (ascii ''YANDEX_OAUTH_TOKEN'') = None \<Longrightarrow>
     get_tracks_by_uuid w [] u = (Inl (ValueError (MSG_GET_TRACKS_UUID @ MSG_NO_TOKEN)), [], [])"
  by (simp add: get_tracks_by_uuid_def get_tracks_by_uuid_undecorated_def
      get_tracks_by_uuid_try_no_token try_except_def)

lemma cache_after_no_token:
  "environ w (ascii ''YANDEX_OAUTH_TOKEN'') = None \<Longrightarrow> cache_after w [] earlier = []"
  by (induction earlier) (simp_all add: get_tracks_by_uuid_no_token_miss)

text \<open>
  Claim C4. When \<^verbatim>\<open>YANDEX_OAUTH_TOKEN\<close> is absent from the process environment, then for
  every playlist identifier, whatever calls the service has served before,
  \<^verbatim>\<open>get_tracks_by_uuid\<close> fails with a \<^verbatim>\<open>ValueError\<close> that carries the message of the
  missing credential, and no HTTP request is issued.
\<close>

theorem get_tracks_by_uuid_missing_token:
  assumes "environ w (ascii ''YANDEX_OAUTH_TOKEN'') = None"
  shows "get_tracks_by_uuid_try w playlist_uuid = (Inl (ValueError MSG_NO_TOKEN), [])
       \<and> get_tracks_by_uuid w (cache_after w [] earlier) playlist_uuid
           = (Inl (ValueError (MSG_GET_TRACKS_UUID @ MSG_NO_TOKEN)), [], [])"
  using assms
  by (simp add: cache_after_no_token get_tracks_by_uuid_no_token_miss get_tracks_by_uuid_try_no_token)

theorem get_tracks_by_uuid_missing_token_witness:
  "environ (example_world (\<lambda>kind. []) False) (ascii ''YANDEX_OAUTH_TOKEN'') = None
   \<and> get_tracks_by_uuid (example_world (\<lambda>kind. []) False)
        (cache_after (example_world (\<lambda>kind. []) False) [] [ascii ''a'', ascii ''b'']) (ascii ''a'')
       = (Inl (ValueError (MSG_GET_TRACKS_UUID @ MSG_NO_TOKEN)), [], [])"
proof -
  have e: "environ (example_world (\<lambda>kind. []) False) (ascii ''YANDEX_OAUTH_TOKEN'') = None"
    by (simp add: example_world_def)
  from get_tracks_by_uuid_missing_token[OF e] e show ?thesis by blast
qed

section \<open>Failures of the comparison\<close>

lemma process_playlists_async_returns:
  "\<exists>r. process_playlists_async w url1 url2 = Inr r"
  by (cases "process_playlists_async_try w url1 url2")
     (simp_all add: process_playlists_async_def try_except_def)

lemma process_playlists_async_failed:
  "process_playlists_async_try w url1 url2 = Inl e \<Longrightarrow>
     process_playlists_async w url1 url2 = Inr \<lparr>common_tracks = [], error = Some (exn_str e)\<rparr>"
  by (simp add: process_playlists_async_def try_except_def)

lemma process_playlist_fetch_failed:
  "isl (fetch_playlist w i) \<Longrightarrow> isl (process_playlist w i)"
  by (cases "fetch_playlist w i") (simp_all add: process_playlist_def and_then_def)

lemma upstream_failure_raises:
  assumes "upstream_failure w url1 url2"
  shows "\<exists>e. process_playlists_async_try w url1 url2 = Inl e"
proof (cases "client_init w")
  case (Some e)
  then show ?thesis
    by (simp add: process_playlists_async_try_def YandexMusicService_def and_then_def)
next
  case None
  note ci = None
  show ?thesis
  proof (cases "parse_playlist_url_cached (re_digit w) url1")
    case (Inl e)
    with ci show ?thesis
      by (simp add: process_playlists_async_try_def YandexMusicService_def and_then_def)
  next
    case (Inr i1)
    note p1 = Inr
    show ?thesis
    proof (cases "parse_playlist_url_cached (re_digit w) url2")
      case (Inl e)
      with ci p1 show ?thesis
        by (simp add: process_playlists_async_try_def YandexMusicService_def and_then_def)
    next
      case (Inr i2)
      with assms ci p1 have "isl (fetch_playlist w i1) \<or> isl (fetch_playlist w i2)"
        by (simp add: upstream_failure_def)
      then have "isl (process_playlist w i1) \<or> isl (process_playlist w i2)"
        using process_playlist_fetch_failed by blast
      then show ?thesis using ci p1 Inr
        by (cases "process_playlist w i1"; cases "process_playlist w i2";
            cases "second_completes_first w")
           (simp_all add: process_playlists_async_try_def YandexMusicService_def and_then_def
              Let_def)
    qed
  qed
qed

lemma get_tracks_exhausted:
  assumes "\<forall>attempt<3. \<exists>e. client_users_playlists w attempt kind user = Inl e"
  shows "\<exists>e. fst (get_tracks w user kind) = Inl e"
proof -
  let ?f = "\<lambda>attempt. get_tracks_undecorated w attempt user kind"
  have all: "\<forall>i. 0 \<le> i \<and> i < nat 3 \<longrightarrow> (\<exists>e. ?f i = Inl e)"
  proof (intro allI impI)
    fix i :: nat assume "0 \<le> i \<and> i < nat 3"
    then have "i < 3" by simp
    with assms obtain e where "client_users_playlists w i kind user = Inl e" by blast
    then show "\<exists>e. ?f i = Inl e"
      by (simp add: get_tracks_undecorated_def get_tracks_try_def and_then_def try_except_def)
  qed
  have "\<exists>e evs. retry_loop (clock w) 3 1 ?f [0 ..< nat 3] = (Inl e, evs)"
    using all by (intro retry_loop_all_fail) simp_all
  then show ?thesis by (auto simp: get_tracks_def retry_on_error_def)
qed

lemma parse_example_url_1:
  "parse_playlist_url_cached (\<lambda>c. 48 \<le> c \<and> c \<le> 57) (example_url ''1'')
     = Inr (UserKind (ascii ''u'') (ascii ''1''))"
  by (simp add: parse_playlist_url_cached_def example_url_def uuid_match_at_def user_match_at_def
      UUID_PREFIX_def USER_PREFIX_def PLAYLISTS_PART_def ascii_def slash_def qmark_def)

lemma parse_example_url_2:
  "parse_playlist_url_cached (\<lambda>c. 48 \<le> c \<and> c \<le> 57) (example_url ''2'')
     = Inr (UserKind (ascii ''u'') (ascii ''2''))"
  by (simp add: parse_playlist_url_cached_def example_url_def uuid_match_at_def user_match_at_def
      UUID_PREFIX_def USER_PREFIX_def PLAYLISTS_PART_def ascii_def slash_def qmark_def)

text \<open>
  Claim C3. For every pair of strings, \<^verbatim>\<open>process_playlists_async\<close> returns and never
  raises. Whenever a statement inside its \<^verbatim>\<open>try\<close> raises, it returns an empty list of
  common tracks with the text of the exception as the error; this is the case when the
  service cannot be made, when a string does not parse and when a playlist fetch fails,
  and a fetch by owner fails when all three attempts of its retry policy raise.
\<close>

theorem process_playlists_async_never_raises:
  "(\<exists>r. process_playlists_async w url1 url2 = Inr r)
   \<and> (\<forall>e. process_playlists_async_try w url1 url2 = Inl e \<longrightarrow>
          process_playlists_async w url1 url2
            = Inr \<lparr>common_tracks = [], error = Some (exn_str e)\<rparr>)
   \<and> (upstream_failure w url1 url2 \<longrightarrow>
          (\<exists>m. process_playlists_async w url1 url2 = Inr \<lparr>common_tracks = [], error = Some m\<rparr>))
   \<and> ((\<forall>attempt<3. \<exists>e. client_users_playlists w attempt kind user = Inl e) \<longrightarrow>
          isl (fetch_playlist w (UserKind user kind)))
   \<and> (isl (fst (get_tracks_by_uuid w [] u)) \<longrightarrow> isl (fetch_playlist w (Uuid u)))"
proof (intro conjI allI impI)
  show "\<exists>r. process_playlists_async w url1 url2 = Inr r"
    by (rule process_playlists_async_returns)
next
  fix e assume "process_playlists_async_try w url1 url2 = Inl e"
  then show "process_playlists_async w url1 url2 = Inr \<lparr>common_tracks = [], error = Some (exn_str e)\<rparr>"
    by (rule process_playlists_async_failed)
next
  assume "upstream_failure w url1 url2"
  then obtain e where "process_playlists_async_try w url1 url2 = Inl e"
    using upstream_failure_raises by blast
  then show "\<exists>m. process_playlists_async w url1 url2 = Inr \<lparr>common_tracks = [], error = Some m\<rparr>"
    using process_playlists_async_failed by blast
next
  assume "\<forall>attempt<3. \<exists>e. client_users_playlists w attempt kind user = Inl e"
  then obtain e where "fst (get_tracks w user kind) = Inl e"
    using get_tracks_exhausted by blast
  then show "isl (fetch_playlist w (UserKind user kind))"
    by (simp add: fetch_playlist_def and_then_def)
next
  assume "isl (fst (get_tracks_by_uuid w [] u))"
  then show "isl (fetch_playlist w (Uuid u))"
    by (cases "fst (get_tracks_by_uuid w [] u)") (simp_all add: fetch_playlist_def and_then_def)
qed

theorem process_playlists_async_never_raises_witness:
  "upstream_failure
      ((example_world (\<lambda>kind. []) False)
         \<lparr>client_users_playlists := (\<lambda>attempt kind user. Inl (OtherException (ascii ''down'')))\<rparr>)
      (example_url ''1'') (example_url ''2'')
   \<and> (\<exists>m. process_playlists_async
            ((example_world (\<lambda>kind. []) False)
               \<lparr>client_users_playlists := (\<lambda>attempt kind user. Inl (OtherException (ascii ''down'')))\<rparr>)
            (example_url ''1'') (example_url ''2'')
          = Inr \<lparr>common_tracks = [], error = Some m\<rparr>)"
proof -
  let ?w = "(example_world (\<lambda>kind. []) False)
         \<lparr>client_users_playlists := (\<lambda>attempt kind user. Inl (OtherException (ascii ''down'')))\<rparr>"
  note T = process_playlists_async_never_raises[of ?w "example_url ''1''" "example_url ''2''" "ascii ''1''" "ascii ''u''"]
  have d: "re_digit ?w = (\<lambda>c. 48 \<le> c \<and> c \<le> 57)" by (simp add: example_world_def)
  have "\<forall>attempt<3. \<exists>e. client_users_playlists ?w attempt (ascii ''1'') (ascii ''u'') = Inl e"
    by simp
  with T have f: "isl (fetch_playlist ?w (UserKind (ascii ''u'') (ascii ''1'')))" by blast
  have ci: "client_init ?w = None" by (simp add: example_world_def)
  have u: "upstream_failure ?w (example_url ''1'') (example_url ''2'')"
    using f by (simp add: upstream_failure_def d parse_example_url_1 parse_example_url_2)
  with T have "\<exists>m. process_playlists_async ?w (example_url ''1'') (example_url ''2'')
          = Inr \<lparr>common_tracks = [], error = Some m\<rparr>" by blast
  with u show ?thesis by blast
qed

section \<open>Replies of the endpoint\<close>

lemma parse_error_is_ValueError:
  "parse_playlist_url_cached isdigit url = Inl e \<Longrightarrow> e = ValueError MSG_BAD_FORMAT"
  by (auto simp: parse_playlist_url_cached_def split: option.splits)

lemma strip_example_url_1: "strip (\<lambda>c. c = 32) (example_url ''1'') = example_url ''1''"
  by (simp add: strip_def example_url_def ascii_def)

lemma strip_example_url_2: "strip (\<lambda>c. c = 32) (example_url ''2'') = example_url ''2''"
  by (simp add: strip_def example_url_def ascii_def)

lemma example_url_not_empty: "example_url k \<noteq> []"
  by (simp add: example_url_def ascii_def)

text \<open>
  Claim C10. For every AJAX request whose two fields are strings: when either field is
  empty after stripping white space, or either does not parse, the reply is a JSON body
  with the single field \<^verbatim>\<open>error\<close> and no list of common tracks; otherwise the comparison
  runs and the reply holds both the list of common tracks and the field \<^verbatim>\<open>error\<close>.
\<close>

theorem index_reply_fields:
  assumes "http_method req = ascii ''POST''"
    and "x_requested_with req = Some (ascii ''XMLHttpRequest'')"
    and "submitted w req ''playlist1'' = Inr url1"
    and "submitted w req ''playlist2'' = Inr url2"
  shows "(url1 = [] \<or> url2 = [] \<or> isl (parse_playlist_url_cached (re_digit w) url1)
            \<or> isl (parse_playlist_url_cached (re_digit w) url2)
          \<longrightarrow> (\<exists>m. index w req = Inr (Jsonify [(ascii ''error'', RStr m)])))
       \<and> (url1 \<noteq> [] \<and> url2 \<noteq> [] \<and> (\<exists>i1. parse_playlist_url_cached (re_digit w) url1 = Inr i1)
            \<and> (\<exists>i2. parse_playlist_url_cached (re_digit w) url2 = Inr i2)
          \<longrightarrow> (\<exists>r. process_playlists_async w url1 url2 = Inr r
                 \<and> index w req
                     = Inr (Jsonify [(ascii ''common_tracks'', RTracks (common_tracks r)),
                                     (ascii ''error'',
                                      (case error r of None \<Rightarrow> RNone | Some m \<Rightarrow> RStr m))])))"
proof (intro conjI impI)
  assume a: "url1 = [] \<or> url2 = [] \<or> isl (parse_playlist_url_cached (re_digit w) url1)
            \<or> isl (parse_playlist_url_cached (re_digit w) url2)"
  show "\<exists>m. index w req = Inr (Jsonify [(ascii ''error'', RStr m)])"
  proof (cases "url1 = [] \<or> url2 = []")
    case True
    then show ?thesis using assms by (auto simp: index_def and_then_def)
  next
    case False
    with a have "isl (parse_playlist_url_cached (re_digit w) url1)
            \<or> isl (parse_playlist_url_cached (re_digit w) url2)" by blast
    then have "and_then (parse_playlist_url_cached (re_digit w) url1)
                 (\<lambda>parsed. parse_playlist_url_cached (re_digit w) url2)
               = Inl (ValueError MSG_BAD_FORMAT)"
      by (cases "parse_playlist_url_cached (re_digit w) url1";
          cases "parse_playlist_url_cached (re_digit w) url2")
         (auto simp: and_then_def dest: parse_error_is_ValueError)
    then show ?thesis using assms False by (simp add: index_def and_then_def)
  qed
next
  assume a: "url1 \<noteq> [] \<and> url2 \<noteq> [] \<and> (\<exists>i1. parse_playlist_url_cached (re_digit w) url1 = Inr i1)
            \<and> (\<exists>i2. parse_playlist_url_cached (re_digit w) url2 = Inr i2)"
  then obtain i1 i2 where p: "parse_playlist_url_cached (re_digit w) url1 = Inr i1"
    "parse_playlist_url_cached (re_digit w) url2 = Inr i2" by blast
  from process_playlists_async_returns obtain r where r: "process_playlists_async w url1 url2 = Inr r"
    by blast
  have "index w req = Inr (jsonify_result r)"
    using assms a p r by (simp add: index_def and_then_def)
  with r show "\<exists>r. process_playlists_async w url1 url2 = Inr r
                 \<and> index w req
                     = Inr (Jsonify [(ascii ''common_tracks'', RTracks (common_tracks r)),
                                     (ascii ''error'',
                                      (case error r of None \<Rightarrow> RNone | Some m \<Rightarrow> RStr m))])"
    by (auto simp: jsonify_result_def)
qed

theorem index_reply_fields_witness:
  "(\<exists>m. index (example_world (\<lambda>kind. []) False) (example_request (ascii ''  '') (example_url ''2''))
          = Inr (Jsonify [(ascii ''error'', RStr m)]))
   \<and> (\<exists>m. index (example_world (\<lambda>kind. []) False) (example_request (ascii ''nowhere'') (example_url ''2''))
          = Inr (Jsonify [(ascii ''error'', RStr m)]))
   \<and> (\<exists>r::comparison. index (example_world (\<lambda>kind. []) False) (example_request (example_url ''1'') (example_url ''2''))
          = Inr (Jsonify [(ascii ''common_tracks'', RTracks (common_tracks r)),
                          (ascii ''error'', (case error r of None \<Rightarrow> RNone | Some m \<Rightarrow> RStr m))]))"
proof -
  let ?w = "example_world (\<lambda>kind. []) False"
  have d: "re_digit ?w = (\<lambda>c. 48 \<le> c \<and> c \<le> 57)" by (simp add: example_world_def)
  have sp: "str_isspace ?w = (\<lambda>c. c = 32)" by (simp add: example_world_def)
  have m: "\<And>a b. http_method (example_request a b) = ascii ''POST''"
    by (simp add: example_request_def)
  have x: "\<And>a b. x_requested_with (example_request a b) = Some (ascii ''XMLHttpRequest'')"
    by (simp add: example_request_def)
  have s2: "\<And>a. submitted ?w (example_request a (example_url ''2'')) ''playlist2'' = Inr (example_url ''2'')"
    by (simp add: submitted_def example_request_def sp strip_example_url_2 ascii_def)
  have s1a: "submitted ?w (example_request (ascii ''  '') (example_url ''2'')) ''playlist1'' = Inr []"
    by (simp add: submitted_def example_request_def sp strip_def ascii_def)
  have s1b: "submitted ?w (example_request (ascii ''nowhere'') (example_url ''2'')) ''playlist1''
               = Inr (ascii ''nowhere'')"
    by (simp add: submitted_def example_request_def sp strip_def ascii_def)
  have s1c: "submitted ?w (example_request (example_url ''1'') (example_url ''2'')) ''playlist1''
               = Inr (example_url ''1'')"
    by (simp add: submitted_def example_request_def sp strip_example_url_1 ascii_def)
  have pb: "isl (parse_playlist_url_cached (re_digit ?w) (ascii ''nowhere''))"
    by (simp add: d parse_playlist_url_cached_def uuid_match_at_def user_match_at_def
      UUID_PREFIX_def USER_PREFIX_def PLAYLISTS_PART_def ascii_def slash_def qmark_def)
  have a: "\<exists>m. index ?w (example_request (ascii ''  '') (example_url ''2''))
          = Inr (Jsonify [(ascii ''error'', RStr m)])"
    using index_reply_fields[OF m x s1a s2] by blast
  have b: "\<exists>m. index ?w (example_request (ascii ''nowhere'') (example_url ''2''))
          = Inr (Jsonify [(ascii ''error'', RStr m)])"
    using index_reply_fields[OF m x s1b s2] pb by blast
  have ne: "example_url ''1'' \<noteq> [] \<and> example_url ''2'' \<noteq> []"
    by (simp add: example_url_not_empty)
  have p12: "(\<exists>i1. parse_playlist_url_cached (re_digit ?w) (example_url ''1'') = Inr i1)
           \<and> (\<exists>i2. parse_playlist_url_cached (re_digit ?w) (example_url ''2'') = Inr i2)"
    by (simp add: d parse_example_url_1 parse_example_url_2)
  have h: "example_url ''1'' \<noteq> [] \<and> example_url ''2'' \<noteq> []
           \<and> (\<exists>i1. parse_playlist_url_cached (re_digit ?w) (example_url ''1'') = Inr i1)
           \<and> (\<exists>i2. parse_playlist_url_cached (re_digit ?w) (example_url ''2'') = Inr i2)"
    using ne p12 by simp
  from index_reply_fields[OF m x s1c s2, THEN conjunct2, THEN mp, OF h]
  obtain r :: comparison where "index ?w (example_request (example_url ''1'') (example_url ''2''))
          = Inr (Jsonify [(ascii ''common_tracks'', RTracks (common_tracks r)),
                          (ascii ''error'', (case error r of None \<Rightarrow> RNone | Some m \<Rightarrow> RStr m))])"
    by (elim exE conjE)
  then have c: "\<exists>r::comparison. index ?w (example_request (example_url ''1'') (example_url ''2''))
          = Inr (Jsonify [(ascii ''common_tracks'', RTracks (common_tracks r)),
                          (ascii ''error'', (case error r of None \<Rightarrow> RNone | Some m \<Rightarrow> RStr m))])"
    by (rule exI)
  from a b c show ?thesis by blast
qed

section \<open>Order and uniqueness of the common tracks\<close>

lemma title_keys_Inr:
  "title_keys w xs = Inr ks \<Longrightarrow>
     ks = map (lowered_title w) xs \<and> (\<forall>x\<in>set xs. \<exists>s. info_title x = PStr s)"
proof (induction xs arbitrary: ks)
  case Nil
  then show ?case by simp
next
  case (Cons x xs)
  from Cons.prems obtain k ks' where k: "title_key w x = Inr k" and ks': "title_keys w xs = Inr ks'"
    and e: "ks = k # ks'"
    by (auto simp: and_then_def split: sum.splits)
  from k obtain s where s: "info_title x = PStr s" and kk: "k = str_lower w s"
    by (auto simp: title_key_def split: pyscalar.splits)
  from Cons.IH[OF ks'] s kk e show ?case by (simp add: lowered_title_def)
qed

lemma sort_by_title_Inr:
  assumes "sort_by_title w xs = Inr ys"
  shows "ys = sort_key (lowered_title w) xs \<and> (\<forall>x\<in>set xs. \<exists>s. info_title x = PStr s)"
proof -
  from assms obtain ks where ks: "title_keys w xs = Inr ks"
    and ys: "ys = map snd (sort_key fst (zip ks xs))"
    by (auto simp: sort_by_title_def and_then_def split: sum.splits)
  from title_keys_Inr[OF ks] have km: "ks = map (lowered_title w) xs"
    and st: "\<forall>x\<in>set xs. \<exists>s. info_title x = PStr s" by simp_all
  have z: "zip ks xs = map (\<lambda>x. (lowered_title w x, x)) xs"
    unfolding km by (induction xs) simp_all
  have ins: "\<And>x zs. insort_key fst (lowered_title w x, x) (map (\<lambda>x. (lowered_title w x, x)) zs)
                 = map (\<lambda>x. (lowered_title w x, x)) (insort_key (lowered_title w) x zs)"
  proof -
    fix x zs show "insort_key fst (lowered_title w x, x) (map (\<lambda>x. (lowered_title w x, x)) zs)
                 = map (\<lambda>x. (lowered_title w x, x)) (insort_key (lowered_title w) x zs)"
      by (induction zs) simp_all
  qed
  have "sort_key fst (map (\<lambda>x. (lowered_title w x, x)) xs)
          = map (\<lambda>x. (lowered_title w x, x)) (sort_key (lowered_title w) xs)"
    by (induction xs) (simp_all add: ins)
  then have "ys = sort_key (lowered_title w) xs"
    unfolding ys z by (simp add: comp_def)
  with st show ?thesis by simp
qed

lemma get_track_info_id:
  assumes "fst (get_track_info c t) = Inr (Some i)"
  shows "get_track_id t = Some (info_id i)"
proof -
  from get_track_info_undecorated_returns obtain r where r: "get_track_info_undecorated t = Inr r"
    by blast
  from get_track_info_once[OF r] assms have "r = Some i" by simp
  with r have "get_track_info_try t = Inr (Some i)"
    by (cases "get_track_info_try t") (simp_all add: get_track_info_undecorated_def try_except_def)
  then show ?thesis
    by (auto simp: get_track_info_try_def Let_def split: option.splits if_splits sum.splits)
qed

lemma collect_common_tracks_ids:
  "collect_common_tracks w d ids = Inr infos \<Longrightarrow>
     (\<forall>k t. map_of d k = Some t \<longrightarrow> get_track_id t = Some k) \<Longrightarrow> distinct ids \<Longrightarrow>
     distinct (map info_id infos) \<and> set (map info_id infos) \<subseteq> set ids"
proof (induction ids arbitrary: infos)
  case Nil
  then show ?case by simp
next
  case (Cons k ids)
  from Cons.prems(1) obtain t info rest where t: "map_of d k = Some t"
    and gi: "fst (get_track_info (clock w) t) = Inr info"
    and rest: "collect_common_tracks w d ids = Inr rest"
    and e: "infos = (case info of None \<Rightarrow> rest | Some i \<Rightarrow> i # rest)"
    by (auto simp: and_then_def split: sum.splits option.splits)
  from Cons.prems(3) have dk: "k \<notin> set ids" and di: "distinct ids" by simp_all
  from Cons.IH[OF rest Cons.prems(2) di]
  have ih: "distinct (map info_id rest)" "set (map info_id rest) \<subseteq> set ids" by simp_all
  show ?case
  proof (cases info)
    case None
    with e ih show ?thesis by auto
  next
    case (Some i)
    with gi have "get_track_id t = Some (info_id i)" using get_track_info_id by simp
    moreover from Cons.prems(2) t have "get_track_id t = Some k" by blast
    ultimately have "info_id i = k" by simp
    with Some e ih dk show ?thesis by auto
  qed
qed

lemma process_playlist_Inr:
  assumes "process_playlist w i = Inr d"
  shows "distinct (map fst d) \<and> (\<forall>k t. map_of d k = Some t \<longrightarrow> get_track_id t = Some k)"
proof -
  from assms obtain entries where d: "d = fill_tracks_dict entries []"
    by (auto simp: process_playlist_def and_then_def split: sum.splits)
  have "distinct (map fst d)" unfolding d by (rule distinct_fill_tracks_dict) simp
  moreover have "\<forall>k t. map_of d k = Some t \<longrightarrow> get_track_id t = Some k"
  proof (intro allI impI)
    fix k t assume "map_of d k = Some t"
    then have "last_with_id entries k = Some t"
      unfolding d by (simp add: map_of_fill_tracks_dict split: option.splits)
    then show "get_track_id t = Some k" using last_with_id_Some by blast
  qed
  ultimately show ?thesis by simp
qed

lemma process_playlists_async_try_Inr:
  assumes "process_playlists_async_try w url1 url2 = Inr r"
  shows "\<exists>i1 i2 d1 d2 infos.
           parse_playlist_url_cached (re_digit w) url1 = Inr i1
         \<and> parse_playlist_url_cached (re_digit w) url2 = Inr i2
         \<and> process_playlist w (if second_completes_first w then i2 else i1) = Inr d1
         \<and> process_playlist w (if second_completes_first w then i1 else i2) = Inr d2
         \<and> collect_common_tracks w d1
              (set_iteration w (filter (\<lambda>k. k \<in> set (map fst d2)) (map fst d1))) = Inr infos
         \<and> sort_by_title w infos = Inr (common_tracks r)
         \<and> error r = None"
  using assms unfolding process_playlists_async_try_def
  by (auto simp: and_then_def Let_def split: sum.splits if_splits)

lemma process_playlists_async_try_sorted:
  assumes "process_playlists_async_try w url1 url2 = Inr r"
  shows "distinct (map info_id (common_tracks r))
       \<and> sorted (map (lowered_title w) (common_tracks r))
       \<and> (\<forall>x\<in>set (common_tracks r). \<exists>s. info_title x = PStr s)
       \<and> (\<forall>i1 i2 d1 d2.
             parse_playlist_url_cached (re_digit w) url1 = Inr i1
           \<and> parse_playlist_url_cached (re_digit w) url2 = Inr i2
           \<and> process_playlist w i1 = Inr d1 \<and> process_playlist w i2 = Inr d2
           \<longrightarrow> set (map info_id (common_tracks r)) \<subseteq> fst ` set d1 \<inter> fst ` set d2)"
proof -
  from process_playlists_async_try_Inr[OF assms] obtain i1 i2 d1 d2 infos where
    p1: "parse_playlist_url_cached (re_digit w) url1 = Inr i1" and
    p2: "parse_playlist_url_cached (re_digit w) url2 = Inr i2" and
    d1: "process_playlist w (if second_completes_first w then i2 else i1) = Inr d1" and
    d2: "process_playlist w (if second_completes_first w then i1 else i2) = Inr d2" and
    c: "collect_common_tracks w d1
          (set_iteration w (filter (\<lambda>k. k \<in> set (map fst d2)) (map fst d1))) = Inr infos" and
    s: "sort_by_title w infos = Inr (common_tracks r)"
    by blast
  let ?ids = "set_iteration w (filter (\<lambda>k. k \<in> set (map fst d2)) (map fst d1))"
  from process_playlist_Inr[OF d1] have dd: "distinct (map fst d1)"
    and bound: "\<forall>k t. map_of d1 k = Some t \<longrightarrow> get_track_id t = Some k" by simp_all
  have di: "distinct ?ids" using dd by (simp add: set_iteration_def)
  have si: "set ?ids = fst ` set d1 \<inter> fst ` set d2" by (auto simp: set_iteration_def)
  from collect_common_tracks_ids[OF c bound di]
  have ci: "distinct (map info_id infos)" "set (map info_id infos) \<subseteq> set ?ids" by simp_all
  from sort_by_title_Inr[OF s] have ys: "common_tracks r = sort_key (lowered_title w) infos"
    and st: "\<forall>x\<in>set infos. \<exists>s. info_title x = PStr s" by simp_all
  have m: "mset (map info_id (common_tracks r)) = mset (map info_id infos)"
    unfolding ys by simp
  have a: "distinct (map info_id (common_tracks r))"
    using ci(1) m by (metis mset_eq_imp_distinct_iff)
  have b: "sorted (map (lowered_title w) (common_tracks r))" unfolding ys by simp
  have c': "\<forall>x\<in>set (common_tracks r). \<exists>s. info_title x = PStr s" unfolding ys using st by simp
  have sub: "set (map info_id (common_tracks r)) \<subseteq> fst ` set d1 \<inter> fst ` set d2"
    using ci(2) si unfolding ys by simp
  have d: "\<forall>j1 j2 e1 e2.
             parse_playlist_url_cached (re_digit w) url1 = Inr j1
           \<and> parse_playlist_url_cached (re_digit w) url2 = Inr j2
           \<and> process_playlist w j1 = Inr e1 \<and> process_playlist w j2 = Inr e2
           \<longrightarrow> set (map info_id (common_tracks r)) \<subseteq> fst ` set e1 \<inter> fst ` set e2"
  proof (intro allI impI)
    fix j1 j2 e1 e2
    assume h: "parse_playlist_url_cached (re_digit w) url1 = Inr j1
           \<and> parse_playlist_url_cached (re_digit w) url2 = Inr j2
           \<and> process_playlist w j1 = Inr e1 \<and> process_playlist w j2 = Inr e2"
    with p1 p2 have j: "j1 = i1" "j2 = i2" by simp_all
    show "set (map info_id (common_tracks r)) \<subseteq> fst ` set e1 \<inter> fst ` set e2"
    proof (cases "second_completes_first w")
      case True
      with d1 d2 h j have "e1 = d2" "e2 = d1" by simp_all
      with sub show ?thesis by blast
    next
      case False
      with d1 d2 h j have "e1 = d1" "e2 = d2" by simp_all
      with sub show ?thesis by blast
    qed
  qed
  from a b c' d show ?thesis by blast
qed

lemma title_keys_strs:
  "(\<forall>x\<in>set xs. \<exists>s. info_title x = PStr s) \<Longrightarrow> title_keys w xs = Inr (map (lowered_title w) xs)"
proof (induction xs)
  case Nil
  then show ?case by simp
next
  case (Cons x xs)
  then obtain s where "info_title x = PStr s" by auto
  then have "title_key w x = Inr (lowered_title w x)"
    by (simp add: title_key_def lowered_title_def)
  with Cons show ?case by (simp add: and_then_def)
qed

lemma sort_by_title_strs:
  assumes "\<forall>x\<in>set xs. \<exists>s. info_title x = PStr s"
  shows "sort_by_title w xs = Inr (sort_key (lowered_title w) xs)"
proof -
  from title_keys_strs[OF assms] obtain ys where ys: "sort_by_title w xs = Inr ys"
    by (simp add: sort_by_title_def and_then_def)
  from sort_by_title_Inr[OF ys] ys show ?thesis by simp
qed

lemma sort_key_permutation:
  assumes "mset xs = mset ys" and "inj_on f (set xs)"
  shows "sort_key f xs = sort_key f ys"
proof (rule properties_for_sort_key)
  show "mset (sort_key f ys) = mset xs" using assms(1) by simp
next
  show "sorted (map f (sort_key f ys))" by simp
next
  fix k assume "k \<in> set (sort_key f ys)"
  then have kx: "k \<in> set xs" using assms(1) by (metis mset_eq_setD set_sort)
  have sx: "set (sort_key f ys) = set xs" using assms(1) by (metis mset_eq_setD set_sort)
  have a: "filter (\<lambda>x. f k = f x) (sort_key f ys) = filter (\<lambda>x. k = x) (sort_key f ys)"
    by (rule filter_cong) (use assms(2) kx sx in \<open>auto dest: inj_onD\<close>)
  have b: "filter (\<lambda>x. f k = f x) xs = filter (\<lambda>x. k = x) xs"
    by (rule filter_cong) (use assms(2) kx in \<open>auto dest: inj_onD\<close>)
  have "mset (sort_key f ys) = mset xs" using assms(1) by simp
  then have "count (mset (sort_key f ys)) k = count (mset xs) k" by simp
  then have "filter ((=) k) (sort_key f ys) = filter ((=) k) xs"
    by (metis replicate_count_mset_eq_filter_eq)
  with a b show "filter (\<lambda>x. f k = f x) (sort_key f ys) = filter (\<lambda>x. f k = f x) xs"
    by simp
qed

lemma collect_common_tracks_map:
  "(\<forall>k\<in>set ids. \<exists>t. map_of d k = Some t
        \<and> fst (get_track_info (clock w) t) = Inr (Some (g k))) \<Longrightarrow>
     collect_common_tracks w d ids = Inr (map g ids)"
  by (induction ids) (auto simp: and_then_def)

lemma str_int_digit: "0 < n \<Longrightarrow> n < 10 \<Longrightarrow> str_int n = [48 + nat n]"
proof -
  assume a: "0 < n" "n < 10"
  then have "nat n < 10" by simp
  then have "digits (nat n) = [48 + nat n]" by (simp add: digits.simps[of "nat n"])
  with a show ?thesis by (simp add: str_int_def)
qed

lemma get_track_id_example_entry: "n \<noteq> 0 \<Longrightarrow> get_track_id (example_entry n s) = Some (str_int n)"
  by (simp add: get_track_id_def example_entry_def)

lemma get_track_info_example_entry:
  assumes "n \<noteq> 0"
  shows "fst (get_track_info c (example_entry n s)) = Inr (Some (example_info n s))"
proof -
  have "get_track_info_try (example_entry n s) = Inr (Some (example_info n s))"
    using assms
    by (simp add: get_track_info_try_def get_track_id_def str_int_not_empty Let_def
          example_entry_def example_info_def fetched_def fields.truncate_def
          resolve_title_def resolve_artists_def resolve_album_id_def track_url_def)
  then have "get_track_info_undecorated (example_entry n s) = Inr (Some (example_info n s))"
    by (simp add: get_track_info_undecorated_def try_except_def)
  from get_track_info_once[OF this] show ?thesis by simp
qed

lemma fetch_playlist_example_ranked:
  "fetch_playlist ((example_world playlists swapped)\<lparr>set_rank := rank\<rparr>) (UserKind user kind)
     = Inr (Val (playlists kind))"
proof -
  let ?w = "(example_world playlists swapped)\<lparr>set_rank := rank\<rparr>"
  have "get_tracks_undecorated ?w 0 user kind = Inr (Val (playlists kind))"
    by (simp add: get_tracks_undecorated_def get_tracks_try_def example_world_def and_then_def
        try_except_def)
  then have "get_tracks ?w user kind = (Inr (Some (Val (playlists kind))), [Call 0])"
    unfolding get_tracks_def by (intro retry_on_error_first_success) simp_all
  then show ?thesis by (simp add: fetch_playlist_def and_then_def)
qed

lemma process_playlist_banana_1:
  "process_playlist ((example_world banana_playlists swapped)\<lparr>set_rank := rank\<rparr>)
      (UserKind (ascii ''u'') (ascii ''1''))
     = Inr [(ascii ''5'', example_entry 5 ''Banana''), (ascii ''9'', example_entry 9 ''apple''),
            (ascii ''2'', example_entry 2 ''Cherry''), (ascii ''7'', example_entry 7 ''Date'')]"
  by (simp add: process_playlist_def fetch_playlist_example_ranked and_then_def
      banana_playlists_def get_track_id_example_entry str_int_digit)
     (simp add: ascii_def)

lemma process_playlist_banana_2:
  "process_playlist ((example_world banana_playlists swapped)\<lparr>set_rank := rank\<rparr>)
      (UserKind (ascii ''u'') (ascii ''2''))
     = Inr [(ascii ''2'', example_entry 2 ''Cherry''), (ascii ''4'', example_entry 4 ''Elder''),
            (ascii ''5'', example_entry 5 ''Banana''), (ascii ''9'', example_entry 9 ''apple'')]"
  by (simp add: process_playlist_def fetch_playlist_example_ranked and_then_def
      banana_playlists_def get_track_id_example_entry str_int_digit)
     (simp add: ascii_def)

lemma banana_sorted:
  assumes lw: "str_lower w = ascii_lower"
    and perm: "mset ids = mset [ascii ''5'', ascii ''9'', ascii ''2'']"
  shows "sort_by_title w (map banana_info ids)
           = Inr [example_info 9 ''apple'', example_info 5 ''Banana'', example_info 2 ''Cherry'']"
proof -
  let ?L = "[ascii ''5'', ascii ''9'', ascii ''2'']"
  have titles: "\<forall>x\<in>set (map banana_info ids). \<exists>s. info_title x = PStr s"
    by (auto simp: banana_info_def example_info_def)
  have lt: "lowered_title w (example_info 5 ''Banana'') = ascii ''banana''"
    "lowered_title w (example_info 9 ''apple'') = ascii ''apple''"
    "lowered_title w (example_info 2 ''Cherry'') = ascii ''cherry''"
    by (simp_all add: lowered_title_def example_info_def lw ascii_lower_def ascii_def)
  have bi: "map banana_info ?L
              = [example_info 5 ''Banana'', example_info 9 ''apple'', example_info 2 ''Cherry'']"
    by (simp add: banana_info_def ascii_def)
  have m: "mset (map banana_info ids) = mset (map banana_info ?L)"
    using perm by (metis mset_map)
  have se: "set (map banana_info ids)
              = {example_info 5 ''Banana'', example_info 9 ''apple'', example_info 2 ''Cherry''}"
    using mset_eq_setD[OF m] unfolding bi by simp
  have "inj_on (lowered_title w)
          {example_info 5 ''Banana'', example_info 9 ''apple'', example_info 2 ''Cherry''}"
    by (auto simp: inj_on_def lt ascii_def)
  then have inj: "inj_on (lowered_title w) (set (map banana_info ids))"
    by (simp only: se)
  have "sort_key (lowered_title w) (map banana_info ids)
          = sort_key (lowered_title w) (map banana_info ?L)"
    using m inj by (rule sort_key_permutation)
  also have "\<dots> = [example_info 9 ''apple'', example_info 5 ''Banana'', example_info 2 ''Cherry'']"
    unfolding bi by (simp add: lt ascii_def)
  finally show ?thesis using sort_by_title_strs[OF titles] by simp
qed

lemma banana_collected:
  assumes perm: "mset ids = mset [ascii ''5'', ascii ''9'', ascii ''2'']"
    and d5: "map_of d (ascii ''5'') = Some (example_entry 5 ''Banana'')"
    and d9: "map_of d (ascii ''9'') = Some (example_entry 9 ''apple'')"
    and d2: "map_of d (ascii ''2'') = Some (example_entry 2 ''Cherry'')"
  shows "collect_common_tracks w d ids = Inr (map banana_info ids)"
proof (rule collect_common_tracks_map, rule ballI)
  fix k assume "k \<in> set ids"
  then have "k \<in> set [ascii ''5'', ascii ''9'', ascii ''2'']"
    using perm by (metis mset_eq_setD)
  then have "k = ascii ''5'' \<or> k = ascii ''9'' \<or> k = ascii ''2''" by simp
  then show "\<exists>t. map_of d k = Some t
                \<and> fst (get_track_info (clock w) t) = Inr (Some (banana_info k))"
    using d5 d9 d2
    by (auto simp: banana_info_def get_track_info_example_entry ascii_def)
qed

lemma banana_comparison_in:
  assumes rd: "re_digit w = (\<lambda>c. 48 \<le> c \<and> c \<le> 57)"
    and lw: "str_lower w = ascii_lower"
    and ci: "YandexMusicService w = Inr ()"
    and pp1: "process_playlist w (UserKind (ascii ''u'') (ascii ''1''))
              = Inr [(ascii ''5'', example_entry 5 ''Banana''), (ascii ''9'', example_entry 9 ''apple''),
                     (ascii ''2'', example_entry 2 ''Cherry''), (ascii ''7'', example_entry 7 ''Date'')]"
    and pp2: "process_playlist w (UserKind (ascii ''u'') (ascii ''2''))
              = Inr [(ascii ''2'', example_entry 2 ''Cherry''), (ascii ''4'', example_entry 4 ''Elder''),
                     (ascii ''5'', example_entry 5 ''Banana''), (ascii ''9'', example_entry 9 ''apple'')]"
  shows "process_playlists_async w (example_url ''1'') (example_url ''2'')
     = Inr \<lparr>common_tracks = [example_info 9 ''apple'', example_info 5 ''Banana'',
                              example_info 2 ''Cherry''],
            error = None\<rparr>"
proof -
  let ?d1 = "[(ascii ''5'', example_entry 5 ''Banana''), (ascii ''9'', example_entry 9 ''apple''),
            (ascii ''2'', example_entry 2 ''Cherry''), (ascii ''7'', example_entry 7 ''Date'')]"
  let ?d2 = "[(ascii ''2'', example_entry 2 ''Cherry''), (ascii ''4'', example_entry 4 ''Elder''),
            (ascii ''5'', example_entry 5 ''Banana''), (ascii ''9'', example_entry 9 ''apple'')]"
  have f12: "filter (\<lambda>k. k \<in> set (map fst ?d2)) (map fst ?d1) = [ascii ''5'', ascii ''9'', ascii ''2'']"
    by (simp add: ascii_def)
  have f21: "filter (\<lambda>k. k \<in> set (map fst ?d1)) (map fst ?d2) = [ascii ''2'', ascii ''5'', ascii ''9'']"
    by (simp add: ascii_def)
  have p12: "mset (set_iteration w [ascii ''5'', ascii ''9'', ascii ''2''])
               = mset [ascii ''5'', ascii ''9'', ascii ''2'']"
    by (simp add: set_iteration_def)
  have p21: "mset (set_iteration w [ascii ''2'', ascii ''5'', ascii ''9''])
               = mset [ascii ''5'', ascii ''9'', ascii ''2'']"
    by (simp add: set_iteration_def)
  have c12: "collect_common_tracks w ?d1 (set_iteration w [ascii ''5'', ascii ''9'', ascii ''2''])
               = Inr (map banana_info (set_iteration w [ascii ''5'', ascii ''9'', ascii ''2'']))"
    by (rule banana_collected[OF p12]) (simp_all add: ascii_def)
  have c21: "collect_common_tracks w ?d2 (set_iteration w [ascii ''2'', ascii ''5'', ascii ''9''])
               = Inr (map banana_info (set_iteration w [ascii ''2'', ascii ''5'', ascii ''9'']))"
    by (rule banana_collected[OF p21]) (simp_all add: ascii_def)
  have "process_playlists_async_try w (example_url ''1'') (example_url ''2'')
          = Inr \<lparr>common_tracks = [example_info 9 ''apple'', example_info 5 ''Banana'',
                                   example_info 2 ''Cherry''],
                 error = None\<rparr>"
  proof (cases "second_completes_first w")
    case False
    then show ?thesis
      unfolding process_playlists_async_try_def
      by (simp only: ci rd parse_example_url_1 parse_example_url_2 pp1 pp2
            and_then_def Let_def sum.case if_False fst_conv snd_conv
            f12 c12 banana_sorted[OF lw p12])
  next
    case True
    then show ?thesis
      unfolding process_playlists_async_try_def
      by (simp only: ci rd parse_example_url_1 parse_example_url_2 pp1 pp2
            and_then_def Let_def sum.case if_True fst_conv snd_conv
            f21 c21 banana_sorted[OF lw p21])
  qed
  then show ?thesis by (simp add: process_playlists_async_def try_except_def)
qed

lemma banana_comparison:
  "process_playlists_async ((example_world banana_playlists swapped)\<lparr>set_rank := rank\<rparr>)
      (example_url ''1'') (example_url ''2'')
     = Inr \<lparr>common_tracks = [example_info 9 ''apple'', example_info 5 ''Banana'',
                              example_info 2 ''Cherry''],
            error = None\<rparr>"
proof (rule banana_comparison_in)
  let ?w = "(example_world banana_playlists swapped)\<lparr>set_rank := rank\<rparr>"
  show "re_digit ?w = (\<lambda>c. 48 \<le> c \<and> c \<le> 57)" by (simp add: example_world_def)
  show "str_lower ?w = ascii_lower" by (simp add: example_world_def)
  show "YandexMusicService ?w = Inr ()" by (simp add: YandexMusicService_def example_world_def)
  show "process_playlist ?w (UserKind (ascii ''u'') (ascii ''1''))
              = Inr [(ascii ''5'', example_entry 5 ''Banana''), (ascii ''9'', example_entry 9 ''apple''),
                     (ascii ''2'', example_entry 2 ''Cherry''), (ascii ''7'', example_entry 7 ''Date'')]"
    by (rule process_playlist_banana_1)
  show "process_playlist ?w (UserKind (ascii ''u'') (ascii ''2''))
              = Inr [(ascii ''2'', example_entry 2 ''Cherry''), (ascii ''4'', example_entry 4 ''Elder''),
                     (ascii ''5'', example_entry 5 ''Banana''), (ascii ''9'', example_entry 9 ''apple'')]"
    by (rule process_playlist_banana_2)
qed

text \<open>
  Claim C2. For every pair of playlists, whatever the fetches return, the list of common
  tracks that \<^verbatim>\<open>process_playlists_async\<close> returns holds each identifier at most once, holds
  only identifiers common to the two dictionaries, and is sorted in ascending order of the
  lower-cased title. In particular, for two playlists that share the identifiers 5, 9 and
  2 with the titles Banana, apple and Cherry, the titles come back in the order apple,
  Banana, Cherry, in whatever order the set of common identifiers is iterated and
  whichever fetch completes first.
\<close>

theorem process_playlists_async_sorted_distinct:
  "(\<exists>r. process_playlists_async w url1 url2 = Inr r
        \<and> distinct (map info_id (common_tracks r))
        \<and> sorted (map (lowered_title w) (common_tracks r))
        \<and> (\<forall>x\<in>set (common_tracks r). \<exists>s. info_title x = PStr s)
        \<and> (\<forall>i1 i2 d1 d2.
               parse_playlist_url_cached (re_digit w) url1 = Inr i1
             \<and> parse_playlist_url_cached (re_digit w) url2 = Inr i2
             \<and> process_playlist w i1 = Inr d1 \<and> process_playlist w i2 = Inr d2
             \<longrightarrow> set (map info_id (common_tracks r)) \<subseteq> fst ` set d1 \<inter> fst ` set d2))
   \<and> process_playlists_async ((example_world banana_playlists swapped)\<lparr>set_rank := rank\<rparr>)
        (example_url ''1'') (example_url ''2'')
       = Inr \<lparr>common_tracks = [example_info 9 ''apple'', example_info 5 ''Banana'',
                                example_info 2 ''Cherry''],
              error = None\<rparr>"
proof
  show "\<exists>r. process_playlists_async w url1 url2 = Inr r
        \<and> distinct (map info_id (common_tracks r))
        \<and> sorted (map (lowered_title w) (common_tracks r))
        \<and> (\<forall>x\<in>set (common_tracks r). \<exists>s. info_title x = PStr s)
        \<and> (\<forall>i1 i2 d1 d2.
               parse_playlist_url_cached (re_digit w) url1 = Inr i1
             \<and> parse_playlist_url_cached (re_digit w) url2 = Inr i2
             \<and> process_playlist w i1 = Inr d1 \<and> process_playlist w i2 = Inr d2
             \<longrightarrow> set (map info_id (common_tracks r)) \<subseteq> fst ` set d1 \<inter> fst ` set d2)"
  proof (cases "process_playlists_async_try w url1 url2")
    case (Inl e)
    then have "process_playlists_async w url1 url2
                 = Inr \<lparr>common_tracks = [], error = Some (exn_str e)\<rparr>"
      by (rule process_playlists_async_failed)
    then show ?thesis by simp
  next
    case (Inr r)
    then have "process_playlists_async w url1 url2 = Inr r"
      by (simp add: process_playlists_async_def try_except_def)
    with process_playlists_async_try_sorted[OF Inr] show ?thesis by blast
  qed
next
  show "process_playlists_async ((example_world banana_playlists swapped)\<lparr>set_rank := rank\<rparr>)
        (example_url ''1'') (example_url ''2'')
       = Inr \<lparr>common_tracks = [example_info 9 ''apple'', example_info 5 ''Banana'',
                                example_info 2 ''Cherry''],
              error = None\<rparr>"
    by (rule banana_comparison)
qed

theorem process_playlists_async_sorted_distinct_witness:
  "\<exists>r. process_playlists_async (example_world banana_playlists True)
          (example_url ''1'') (example_url ''2'') = Inr r
       \<and> map info_title (common_tracks r)
           = [PStr (ascii ''apple''), PStr (ascii ''Banana''), PStr (ascii ''Cherry'')]
       \<and> distinct (map info_id (common_tracks r))
       \<and> sorted (map (lowered_title (example_world banana_playlists True)) (common_tracks r))"
proof -
  let ?w = "example_world banana_playlists True"
  have e: "?w\<lparr>set_rank := length\<rparr> = ?w" by (simp add: example_world_def)
  note T = process_playlists_async_sorted_distinct[where w = ?w and ?url1.0 = "example_url ''1''"
      and ?url2.0 = "example_url ''2''" and swapped = True and rank = length]
  from T obtain r where r: "process_playlists_async ?w (example_url ''1'') (example_url ''2'') = Inr r"
    "distinct (map info_id (common_tracks r))"
    "sorted (map (lowered_title ?w) (common_tracks r))"
    by blast
  from T e have "process_playlists_async ?w (example_url ''1'') (example_url ''2'')
       = Inr \<lparr>common_tracks = [example_info 9 ''apple'', example_info 5 ''Banana'',
                                example_info 2 ''Cherry''],
              error = None\<rparr>" by simp
  with r(1) have "Inr r = (Inr \<lparr>common_tracks = [example_info 9 ''apple'', example_info 5 ''Banana'',
                                example_info 2 ''Cherry''],
              error = None\<rparr> :: exn + comparison)" by (rule trans[OF sym])
  then have "r = \<lparr>common_tracks = [example_info 9 ''apple'', example_info 5 ''Banana'',
                                example_info 2 ''Cherry''],
              error = None\<rparr>" by (simp only: sum.inject)
  then have "common_tracks r = [example_info 9 ''apple'', example_info 5 ''Banana'',
                                example_info 2 ''Cherry'']" by (simp only: comparison.simps)
  then have tt: "map info_title (common_tracks r)
           = [PStr (ascii ''apple''), PStr (ascii ''Banana''), PStr (ascii ''Cherry'')]"
    by (simp add: example_info_def)
  note c = conjI[OF r(1) conjI[OF tt conjI[OF r(2) r(3)]]]
  show ?thesis by (rule exI[where x = r]) (rule c)
qed

section \<open>Which playlist supplies the raw entry\<close>

lemma ab_comparison:
  assumes rd: "re_digit w = (\<lambda>c. 48 \<le> c \<and> c \<le> 57)"
    and ci: "YandexMusicService w = Inr ()"
    and pp1: "process_playlist w (UserKind (ascii ''u'') (ascii ''1''))
              = Inr [(ascii ''5'', example_entry 5 ''A'')]"
    and pp2: "process_playlist w (UserKind (ascii ''u'') (ascii ''2''))
              = Inr [(ascii ''5'', example_entry 5 ''B'')]"
  shows "process_playlists_async w (example_url ''1'') (example_url ''2'')
           = Inr \<lparr>common_tracks = [example_info 5 (if second_completes_first w then ''B'' else ''A'')],
                  error = None\<rparr>"
proof -
  have si: "\<And>k. set_iteration w [k] = [k]" by (simp add: set_iteration_def)
  have st: "\<And>s. sort_by_title w [example_info 5 s] = Inr [example_info 5 s]"
  proof -
    fix s
    have "\<forall>x\<in>set [example_info 5 s]. \<exists>t. info_title x = PStr t" by (simp add: example_info_def)
    from sort_by_title_strs[OF this] show "sort_by_title w [example_info 5 s] = Inr [example_info 5 s]"
      by simp
  qed
  have gi: "\<And>s. fst (get_track_info (clock w) (example_entry 5 s)) = Inr (Some (example_info 5 s))"
    by (rule get_track_info_example_entry) simp
  have "process_playlists_async_try w (example_url ''1'') (example_url ''2'')
           = Inr \<lparr>common_tracks = [example_info 5 (if second_completes_first w then ''B'' else ''A'')],
                  error = None\<rparr>"
  proof (cases "second_completes_first w")
    case False
    then show ?thesis
      unfolding process_playlists_async_try_def
      by (simp add: ci rd parse_example_url_1 parse_example_url_2 pp1 pp2 and_then_def si st gi)
  next
    case True
    then show ?thesis
      unfolding process_playlists_async_try_def
      by (simp add: ci rd parse_example_url_1 parse_example_url_2 pp1 pp2 and_then_def si st gi)
  qed
  then show ?thesis by (simp add: process_playlists_async_def try_except_def)
qed

lemma process_playlist_ab:
  "process_playlist (example_world ab_playlists swapped) (UserKind (ascii ''u'') (ascii ''1''))
     = Inr [(ascii ''5'', example_entry 5 ''A'')]"
  "process_playlist (example_world ab_playlists swapped) (UserKind (ascii ''u'') (ascii ''2''))
     = Inr [(ascii ''5'', example_entry 5 ''B'')]"
  by (simp_all add: process_playlist_def fetch_playlist_example and_then_def ab_playlists_def
      get_track_id_example_entry str_int_digit ascii_def)

text \<open>
  Claim C8 says that the display record of a common identifier is always made from the
  entry of the first playlist. The code names the dictionaries \<^verbatim>\<open>tracks1_dict\<close> and
  \<^verbatim>\<open>tracks2_dict\<close> but fills them in the order in which \<^verbatim>\<open>as_completed\<close> yields the two
  futures. For two playlists that hold the identifier 5 under the titles A and B, the
  result carries the title A when the first fetch completes first and the title B, the
  entry of the second playlist, when the second fetch completes first.
\<close>

theorem process_playlists_async_entry_of_first_completed:
  "process_playlists_async (example_world ab_playlists False) (example_url ''1'') (example_url ''2'')
     = Inr \<lparr>common_tracks = [example_info 5 ''A''], error = None\<rparr>
   \<and> process_playlists_async (example_world ab_playlists True) (example_url ''1'') (example_url ''2'')
     = Inr \<lparr>common_tracks = [example_info 5 ''B''], error = None\<rparr>
   \<and> example_info 5 ''B'' \<noteq> example_info 5 ''A''"
proof -
  have a: "\<And>swapped. process_playlists_async (example_world ab_playlists swapped)
              (example_url ''1'') (example_url ''2'')
           = Inr \<lparr>common_tracks =
                    [example_info 5 (if second_completes_first (example_world ab_playlists swapped)
                                     then ''B'' else ''A'')],
                  error = None\<rparr>"
    by (rule ab_comparison)
       (simp_all add: process_playlist_ab, simp_all add: example_world_def YandexMusicService_def)
  have "example_info 5 ''B'' \<noteq> example_info 5 ''A''" by (simp add: example_info_def ascii_def)
  with a[of False] a[of True] show ?thesis by (simp add: example_world_def)
qed

end
